theory Spec2Isabelle
  imports Complex_Main "HOL-Library.Log_Nat"
begin

section \<open>Python values and the built-in operations the analyzer uses\<close>

text \<open>
  The analyzer (\<^verbatim>\<open>lekce_9/agent/analyzer.py\<close>) works on the value that
  \<^verbatim>\<open>json.loads\<close> returns. A Python \<^verbatim>\<open>str\<close> is a sequence of Unicode code
  points, so it is a list of naturals here; \<open>lit\<close> turns an ASCII literal of the
  source into such a list.

  The documents of the model are built from \<^verbatim>\<open>None\<close>, integers, strings, lists
  and objects. JSON numbers with a fraction or an exponent and the literals
  \<^verbatim>\<open>true\<close>/\<^verbatim>\<open>false\<close> are outside the model: the input contract has integer
  counts and string or integer keys only. An object is the association list of
  its items in insertion order (Python dictionaries keep that order); its keys
  are distinct in every value \<^verbatim>\<open>json.loads\<close> returns, and a lookup takes the
  first match.
\<close>

type_synonym pystr = "nat list"

definition lit :: "string \<Rightarrow> pystr" where
  "lit cs = map of_char cs"

datatype json =
    JNull
  | JInt int
  | JStr pystr
  | JList "json list"
  | JDict "(pystr \<times> json) list"

text \<open>
  Every exception the modelled code can raise is a value. \<open>McpToolError v\<close> is the
  \<^verbatim>\<open>ValueError("MCP tool error: ...")\<close> of line 112, with the value of the
  document's \<^verbatim>\<open>error\<close> field; \<open>ValueError\<close> is the one \<^verbatim>\<open>int()\<close> raises.
\<close>

datatype py_error =
    KeyError
  | TypeError
  | AttributeError
  | ValueError
  | ZeroDivisionError
  | OverflowError
  | JSONDecodeError
  | McpToolError json

type_synonym 'a result = "py_error + 'a"

definition and_then :: "'a result \<Rightarrow> ('a \<Rightarrow> 'b result) \<Rightarrow> 'b result" where
  "and_then r f = (case r of Inl e \<Rightarrow> Inl e | Inr x \<Rightarrow> f x)"

text \<open>\<^verbatim>\<open>x[k]\<close> for a string \<open>k\<close>: only a dictionary can be subscripted by a string.\<close>

fun py_getitem :: "json \<Rightarrow> pystr \<Rightarrow> json result" where
  "py_getitem (JDict d) k = (case map_of d k of None \<Rightarrow> Inl KeyError | Some v \<Rightarrow> Inr v)"
| "py_getitem _ k = Inl TypeError"

text \<open>\<^verbatim>\<open>x.get(k, default)\<close>: only a dictionary has the method.\<close>

fun py_get :: "json \<Rightarrow> pystr \<Rightarrow> json \<Rightarrow> json result" where
  "py_get (JDict d) k dflt = Inr (case map_of d k of None \<Rightarrow> dflt | Some v \<Rightarrow> v)"
| "py_get _ k dflt = Inl AttributeError"

text \<open>
  \<^verbatim>\<open>for x in v\<close>: a list yields its elements, a string its characters (strings of
  length one), a dictionary its keys; \<^verbatim>\<open>None\<close> and integers are not iterable.
\<close>

fun py_iter :: "json \<Rightarrow> json list result" where
  "py_iter (JList xs) = Inr xs"
| "py_iter (JStr s) = Inr (map (\<lambda>c. JStr [c]) s)"
| "py_iter (JDict d) = Inr (map (\<lambda>kv. JStr (fst kv)) d)"
| "py_iter _ = Inl TypeError"

text \<open>Lists and dictionaries are unhashable: they cannot be dictionary keys.\<close>

fun hashable :: "json \<Rightarrow> bool" where
  "hashable (JList _) = False"
| "hashable (JDict _) = False"
| "hashable _ = True"

text \<open>
  A dictionary built by the analyzer maps bucket keys (integers or strings) to
  counts. \<open>dict_set\<close> is \<^verbatim>\<open>d[k] = v\<close>: a key already present keeps its place and
  takes the new value, a new key goes to the end.
\<close>

type_synonym pydict = "(json \<times> json) list"

fun dict_set :: "pydict \<Rightarrow> json \<Rightarrow> json \<Rightarrow> pydict" where
  "dict_set [] k v = [(k, v)]"
| "dict_set ((k', v') # d) k v = (if k' = k then (k, v) # d else (k', v') # dict_set d k v)"

section \<open>The aggregation parser\<close>

text \<open>
  \<^verbatim>\<open>{bucket["key"]: bucket["doc_count"] for bucket in bucket_data}\<close>: for each
  bucket in turn the key is evaluated, then the count, then the item is stored.
\<close>

fun bucket_loop :: "json list \<Rightarrow> pydict \<Rightarrow> pydict result" where
  "bucket_loop [] acc = Inr acc"
| "bucket_loop (b # bs) acc =
     and_then (py_getitem b (lit ''key'')) (\<lambda>k.
     and_then (py_getitem b (lit ''doc_count'')) (\<lambda>c.
       if hashable k then bucket_loop bs (dict_set acc k c) else Inl TypeError))"

definition parse_bucket_aggregation :: "json \<Rightarrow> pydict result" where
  "parse_bucket_aggregation bucket_data =
     and_then (py_iter bucket_data) (\<lambda>bs. bucket_loop bs [])"

text \<open>
  The loop of \<^verbatim>\<open>parse_timeline_aggregation\<close> appends one
  \<^verbatim>\<open>{"date": ..., "count": ...}\<close> row per bucket to the list \<^verbatim>\<open>data\<close>; a row is
  the pair of its two values.
\<close>

fun timeline_loop :: "json list \<Rightarrow> (json \<times> json) list \<Rightarrow> (json \<times> json) list result" where
  "timeline_loop [] data = Inr data"
| "timeline_loop (b # bs) data =
     and_then (py_getitem b (lit ''key_as_string'')) (\<lambda>d.
     and_then (py_getitem b (lit ''doc_count'')) (\<lambda>c.
       timeline_loop bs (data @ [(d, c)])))"

text \<open>
  \<^verbatim>\<open>pd.DataFrame(data)\<close> is a call into pandas, which infers the type of each
  column from the values it is given. The model fixes the call where the
  inference keeps the values: when every date is a string and every count an
  integer of 64 bits (as the counts of the search engine are), the frame has a
  column of strings and an \<^verbatim>\<open>int64\<close> column whose cells are the values of
  \<^verbatim>\<open>data\<close>, row by row; this is \<open>Frame rows\<close>, and no rows give the empty frame.
  On all other data the inference may change the cells (a count column that
  holds a null becomes \<^verbatim>\<open>float64\<close>: 1 turns into 1.0 and the null into
  \<^verbatim>\<open>nan\<close>), or the call may raise. What pandas does there is the parameter
  \<open>infer_frame\<close> of the model. A frame it builds is \<open>Inferred rows\<close>, known by
  the \<^verbatim>\<open>str\<close> of the date and of the count of each of its rows, which is all
  the analyzer reads of a timeline.
\<close>

datatype dataframe = Frame "(pystr \<times> int) list" | Inferred "(pystr \<times> pystr) list"

fun plain_row :: "json \<times> json \<Rightarrow> (pystr \<times> int) option" where
  "plain_row (JStr d, JInt c) = (if - (2 ^ 63) \<le> c \<and> c < 2 ^ 63 then Some (d, c) else None)"
| "plain_row _ = None"

fun plain_rows :: "(json \<times> json) list \<Rightarrow> (pystr \<times> int) list option" where
  "plain_rows [] = Some []"
| "plain_rows (r # rs) =
     (case plain_row r of
        None \<Rightarrow> None
      | Some x \<Rightarrow> (case plain_rows rs of None \<Rightarrow> None | Some xs \<Rightarrow> Some (x # xs)))"

definition data_frame ::
  "((json \<times> json) list \<Rightarrow> dataframe result) \<Rightarrow> (json \<times> json) list \<Rightarrow> dataframe result" where
  "data_frame infer_frame data =
     (case plain_rows data of Some rows \<Rightarrow> Inr (Frame rows) | None \<Rightarrow> infer_frame data)"

definition parse_timeline_aggregation ::
  "((json \<times> json) list \<Rightarrow> dataframe result) \<Rightarrow> json \<Rightarrow> dataframe result" where
  "parse_timeline_aggregation infer_frame timeline_data =
     and_then (py_iter timeline_data) (\<lambda>bs.
     and_then (timeline_loop bs []) (data_frame infer_frame))"

text \<open>
  \<^verbatim>\<open>agg_data.get(name, {}).get("buckets", [])\<close>, the expression
  \<^verbatim>\<open>parse_aggregations\<close> evaluates for each of its seven sections.
\<close>

definition section_buckets :: "json \<Rightarrow> pystr \<Rightarrow> json result" where
  "section_buckets agg_data name =
     and_then (py_get agg_data name (JDict [])) (\<lambda>sec.
       py_get sec (lit ''buckets'') (JList []))"

record parsed_aggs =
  severity :: pydict
  regions :: pydict
  types :: pydict
  agents :: pydict
  decoders :: pydict
  srcips :: pydict
  timeline :: dataframe

definition parse_aggregations ::
  "((json \<times> json) list \<Rightarrow> dataframe result) \<Rightarrow> json \<Rightarrow> parsed_aggs result" where
  "parse_aggregations infer_frame agg_data =
     and_then (and_then (section_buckets agg_data (lit ''by_level'')) parse_bucket_aggregation) (\<lambda>sev.
     and_then (and_then (section_buckets agg_data (lit ''by_region'')) parse_bucket_aggregation) (\<lambda>reg.
     and_then (and_then (section_buckets agg_data (lit ''by_groups'')) parse_bucket_aggregation) (\<lambda>typ.
     and_then (and_then (section_buckets agg_data (lit ''by_agent'')) parse_bucket_aggregation) (\<lambda>agt.
     and_then (and_then (section_buckets agg_data (lit ''by_decoder'')) parse_bucket_aggregation) (\<lambda>dec.
     and_then (and_then (section_buckets agg_data (lit ''by_srcip'')) parse_bucket_aggregation) (\<lambda>src.
     and_then (and_then (section_buckets agg_data (lit ''timeline''))
                 (parse_timeline_aggregation infer_frame)) (\<lambda>tl.
       Inr \<lparr>severity = sev, regions = reg, types = typ, agents = agt,
            decoders = dec, srcips = src, timeline = tl\<rparr>)))))))"

section \<open>Floating-point results of the statistics calculator\<close>

text \<open>
  \<^verbatim>\<open>total_hits / days\<close> on two integers is the binary64 number nearest to the
  exact quotient (ties to the even significand), and \<^verbatim>\<open>round(x, 1)\<close> is the
  binary64 number nearest to the one-decimal numeral nearest to \<open>x\<close> (ties to
  the even digit). Both are computed here on integers. A finite binary64 number
  is a sign, a significand below \<open>2^53\<close> and an exponent between \<open>-1074\<close> and
  \<open>971\<close>; its value is \<open>significand * 2^exponent\<close>. A nonzero result has the
  least exponent that fits, so a number has one representation.
\<close>

datatype pyfloat = PyFloat (fsign: bool) (fsig: int) (fexp: int)

definition float_value :: "pyfloat \<Rightarrow> rat" where
  "float_value x =
     (if fsign x then - 1 else 1) * of_int (fsig x) *
     (if 0 \<le> fexp x then 2 ^ nat (fexp x) else 1 / 2 ^ nat (- fexp x))"

text \<open>The integer nearest to \<open>n / d\<close>, ties to the even one (\<open>0 \<le> n\<close>, \<open>0 < d\<close>).\<close>

definition round_half_even_div :: "int \<Rightarrow> int \<Rightarrow> int" where
  "round_half_even_div n d =
     (let q = n div d; r = n mod d in
      if 2 * r < d then q
      else if d < 2 * r then q + 1
      else if even q then q else q + 1)"

text \<open>\<open>\<lfloor>log\<^sub>2 (n / d)\<rfloor>\<close> for positive \<open>n\<close> and \<open>d\<close>.\<close>

definition floor_log2_div :: "int \<Rightarrow> int \<Rightarrow> int" where
  "floor_log2_div n d =
     (let e = bitlen n - bitlen d in
      if n * 2 ^ nat (- e) < d * 2 ^ nat e then e - 1 else e)"

text \<open>
  The binary64 number nearest to \<open>n / d\<close> (\<open>0 \<le> n\<close>, \<open>0 < d\<close>), as significand
  and exponent; \<open>None\<close> when it is beyond the largest finite number.
\<close>

definition round_binary64 :: "int \<Rightarrow> int \<Rightarrow> (int \<times> int) option" where
  "round_binary64 n d =
     (if n = 0 then Some (0, 0)
      else
        let p = max (floor_log2_div n d - 52) (- 1074);
            m = round_half_even_div (n * 2 ^ nat (- p)) (d * 2 ^ nat p);
            m' = (if m = 2 ^ 53 then 2 ^ 52 else m);
            p' = (if m = 2 ^ 53 then p + 1 else p)
        in if m = 0 then Some (0, 0) else if 971 < p' then None else Some (m', p'))"

text \<open>
  \<^verbatim>\<open>a / b\<close> on integers. The sign of a zero quotient is that of the operands
  (\<^verbatim>\<open>0 / -7\<close> is \<^verbatim>\<open>-0.0\<close>).
\<close>

definition int_truediv :: "int \<Rightarrow> int \<Rightarrow> pyfloat result" where
  "int_truediv a b =
     (if b = 0 then Inl ZeroDivisionError
      else case round_binary64 \<bar>a\<bar> \<bar>b\<bar> of
             None \<Rightarrow> Inl OverflowError
           | Some (m, p) \<Rightarrow> Inr (PyFloat ((a < 0) \<noteq> (b < 0)) m p))"

text \<open>\<^verbatim>\<open>x / y\<close> on documents: only integers divide.\<close>

fun py_truediv :: "json \<Rightarrow> json \<Rightarrow> pyfloat result" where
  "py_truediv (JInt a) (JInt b) = int_truediv a b"
| "py_truediv _ _ = Inl TypeError"

text \<open>\<^verbatim>\<open>round(x, 1)\<close> on a float; the result keeps the sign of \<open>x\<close>.\<close>

definition py_round1 :: "pyfloat \<Rightarrow> pyfloat result" where
  "py_round1 x =
     (let tenths = round_half_even_div (10 * fsig x * 2 ^ nat (fexp x)) (2 ^ nat (- fexp x))
      in case round_binary64 tenths 10 of
           None \<Rightarrow> Inl OverflowError
         | Some (m, p) \<Rightarrow> Inr (PyFloat (fsign x) m p))"

section \<open>Comparisons\<close>

text \<open>
  \<^verbatim>\<open>==\<close> on documents: structural, but two dictionaries are equal when they
  have the same items in any order.
\<close>

fun py_eq :: "json \<Rightarrow> json \<Rightarrow> bool" where
  "py_eq JNull JNull = True"
| "py_eq (JInt a) (JInt b) = (a = b)"
| "py_eq (JStr a) (JStr b) = (a = b)"
| "py_eq (JList a) (JList b) = list_all2 py_eq a b"
| "py_eq (JDict a) (JDict b) =
     (length a = length b \<and>
      (\<forall>kv \<in> set a. case map_of b (fst kv) of None \<Rightarrow> False | Some w \<Rightarrow> py_eq (snd kv) w))"
| "py_eq _ _ = False"

text \<open>Strings are ordered lexicographically by code point.\<close>

fun str_lt :: "pystr \<Rightarrow> pystr \<Rightarrow> bool" where
  "str_lt [] [] = False"
| "str_lt [] (y # ys) = True"
| "str_lt (x # xs) [] = False"
| "str_lt (x # xs) (y # ys) = (if x = y then str_lt xs ys else x < y)"

text \<open>
  \<^verbatim>\<open>a < b\<close>: integers and strings are ordered among themselves; two lists are
  compared at the first position where they differ by \<^verbatim>\<open>==\<close>; every other
  pair raises \<^verbatim>\<open>TypeError\<close>. \<^verbatim>\<open>a > b\<close> is \<open>py_lt b a\<close>.
\<close>

fun py_lt :: "json \<Rightarrow> json \<Rightarrow> bool result"
  and list_lt :: "json list \<Rightarrow> json list \<Rightarrow> bool result" where
  "py_lt (JInt a) (JInt b) = Inr (a < b)"
| "py_lt (JStr a) (JStr b) = Inr (str_lt a b)"
| "py_lt (JList a) (JList b) = list_lt a b"
| "py_lt _ _ = Inl TypeError"
| "list_lt [] [] = Inr False"
| "list_lt [] (y # ys) = Inr True"
| "list_lt (x # xs) [] = Inr False"
| "list_lt (x # xs) (y # ys) = (if py_eq x y then list_lt xs ys else py_lt x y)"

section \<open>The statistics calculator\<close>

text \<open>
  \<^verbatim>\<open>int(level)\<close> on a bucket key. What \<^verbatim>\<open>int\<close> makes of a string is the
  interpreter's business (signs, surrounding blanks, underscores, the digits of
  every script), so it is a parameter \<open>int_of_str\<close> of the model; \<open>None\<close> is its
  \<^verbatim>\<open>ValueError\<close>.
\<close>

fun py_int :: "(pystr \<Rightarrow> int option) \<Rightarrow> json \<Rightarrow> int result" where
  "py_int int_of_str (JInt i) = Inr i"
| "py_int int_of_str (JStr s) =
     (case int_of_str s of None \<Rightarrow> Inl ValueError | Some i \<Rightarrow> Inr i)"
| "py_int int_of_str _ = Inl TypeError"

text \<open>\<^verbatim>\<open>acc + count\<close> with an integer on the left, as \<^verbatim>\<open>sum\<close> computes it.\<close>

fun py_add_int :: "int \<Rightarrow> json \<Rightarrow> int result" where
  "py_add_int acc (JInt c) = Inr (acc + c)"
| "py_add_int acc _ = Inl TypeError"

text \<open>
  \<^verbatim>\<open>sum(count for level, count in severity_data.items() if int(level) > 9)\<close>,
  started at \<open>0\<close>.
\<close>

fun critical_loop :: "(pystr \<Rightarrow> int option) \<Rightarrow> pydict \<Rightarrow> int \<Rightarrow> int result" where
  "critical_loop int_of_str [] acc = Inr acc"
| "critical_loop int_of_str (item # items) acc =
     and_then (py_int int_of_str (fst item)) (\<lambda>n.
       if 9 < n
       then and_then (py_add_int acc (snd item)) (\<lambda>acc'. critical_loop int_of_str items acc')
       else critical_loop int_of_str items acc)"

definition NA :: json where
  "NA = JStr (lit ''N/A'')"

text \<open>\<^verbatim>\<open>{k: v for k, v in d.items() if k != "N/A"}\<close>\<close>

definition no_na :: "pydict \<Rightarrow> pydict" where
  "no_na d = filter (\<lambda>item. fst item \<noteq> NA) d"

text \<open>
  \<^verbatim>\<open>max(items, key=lambda x: x[1])\<close> keeps the first item and replaces it by a
  later one whose count is greater (\<^verbatim>\<open>>\<close>) than the count kept.
\<close>

fun max_loop :: "json \<times> json \<Rightarrow> pydict \<Rightarrow> (json \<times> json) result" where
  "max_loop best [] = Inr best"
| "max_loop best (item # items) =
     and_then (py_lt (snd best) (snd item)) (\<lambda>greater.
       max_loop (if greater then item else best) items)"

text \<open>\<^verbatim>\<open>max(d.items(), key=lambda x: x[1])[0] if d else "N/A"\<close>\<close>

fun top_key :: "pydict \<Rightarrow> json result" where
  "top_key [] = Inr NA"
| "top_key (item # items) = and_then (max_loop item items) (\<lambda>best. Inr (fst best))"

text \<open>
  The calculator returns a dictionary literal; it is the list of its items in
  the order written. Its values are documents, but for the daily average, which
  is a float.
\<close>

datatype pyval = Json json | Float pyfloat

type_synonym statistics = "(pystr \<times> pyval) list"

definition calculate_statistics ::
  "(pystr \<Rightarrow> int option) \<Rightarrow> json \<Rightarrow> parsed_aggs \<Rightarrow> json \<Rightarrow> statistics result" where
  "calculate_statistics int_of_str total_hits parsed_data days =
     and_then (critical_loop int_of_str (severity parsed_data) 0) (\<lambda>critical_count.
     let regions_no_na = no_na (regions parsed_data);
         types_no_na = no_na (types parsed_data);
         srcips_no_na = no_na (srcips parsed_data)
     in
     and_then (top_key regions_no_na) (\<lambda>top_country.
     and_then (top_key types_no_na) (\<lambda>top_incident_type.
     and_then (top_key srcips_no_na) (\<lambda>top_srcip.
     and_then (py_truediv total_hits days) (\<lambda>quotient.
     and_then (py_round1 quotient) (\<lambda>daily_average.
       Inr [(lit ''total_incidents'', Json total_hits),
            (lit ''daily_average'', Float daily_average),
            (lit ''critical_count'', Json (JInt critical_count)),
            (lit ''top_country'', Json top_country),
            (lit ''top_incident_type'', Json top_incident_type),
            (lit ''top_srcip'', Json top_srcip),
            (lit ''top_srcip_count'',
               Json (if top_srcip \<noteq> NA
                     then (case map_of srcips_no_na top_srcip of None \<Rightarrow> JInt 0 | Some c \<Rightarrow> c)
                     else JInt 0))]))))))"

section \<open>Extraction from the tool response\<close>

text \<open>\<^verbatim>\<open>sub in s\<close> on strings.\<close>

fun has_substring :: "pystr \<Rightarrow> pystr \<Rightarrow> bool" where
  "has_substring [] sub = (sub = [])"
| "has_substring (c # cs) sub = (take (length sub) (c # cs) = sub \<or> has_substring cs sub)"

text \<open>
  \<^verbatim>\<open>"error" in raw_data\<close>: a key of a dictionary, an element of a list, a
  substring of a string; \<^verbatim>\<open>None\<close> and integers raise.
\<close>

fun py_contains :: "json \<Rightarrow> pystr \<Rightarrow> bool result" where
  "py_contains (JDict d) k = Inr (k \<in> fst ` set d)"
| "py_contains (JList xs) k = Inr (JStr k \<in> set xs)"
| "py_contains (JStr s) k = Inr (has_substring s k)"
| "py_contains _ k = Inl TypeError"

record incident_data =
  query_info :: json
  total_hits :: json
  statistics :: statistics
  aggregations :: parsed_aggs
  sample_incidents :: json

text \<open>The body of the \<^verbatim>\<open>try\<close> block, after \<^verbatim>\<open>json.loads\<close>.\<close>

definition extract_body ::
  "(pystr \<Rightarrow> int option) \<Rightarrow> ((json \<times> json) list \<Rightarrow> dataframe result) \<Rightarrow> json \<Rightarrow>
   incident_data result" where
  "extract_body int_of_str infer_frame raw_data =
     and_then (py_contains raw_data (lit ''error'')) (\<lambda>has_error.
     if has_error
     then and_then (py_getitem raw_data (lit ''error'')) (\<lambda>v. Inl (McpToolError v))
     else
     and_then (py_get raw_data (lit ''aggregations'') (JDict [])) (\<lambda>aggs.
     and_then (parse_aggregations infer_frame aggs) (\<lambda>parsed_aggs.
     and_then (py_get raw_data (lit ''total_hits'') (JInt 0)) (\<lambda>total.
     and_then (and_then (py_get raw_data (lit ''query_info'') (JDict []))
                 (\<lambda>qi. py_get qi (lit ''days'') (JInt 7))) (\<lambda>days.
     and_then (calculate_statistics int_of_str total parsed_aggs days) (\<lambda>stats.
     and_then (py_get raw_data (lit ''query_info'') (JDict [])) (\<lambda>qi.
     and_then (py_get raw_data (lit ''sample_incidents'') (JList [])) (\<lambda>samples.
       Inr \<lparr>query_info = qi, total_hits = total, statistics = stats,
            aggregations = parsed_aggs, sample_incidents = samples\<rparr>))))))))"

text \<open>
  The function reads its argument only through \<^verbatim>\<open>json.loads\<close>, so the model
  takes the outcome of that call: the document, or the exception raised. Both
  handlers re-raise a \<^verbatim>\<open>ValueError\<close>: \<open>FailedToParse\<close> for a
  \<^verbatim>\<open>JSONDecodeError\<close>, \<open>ErrorExtracting e\<close> for every other exception \<open>e\<close>.
\<close>

datatype extract_error = FailedToParse | ErrorExtracting py_error

definition extract_incident_data_from_mcp_response ::
  "(pystr \<Rightarrow> int option) \<Rightarrow> ((json \<times> json) list \<Rightarrow> dataframe result) \<Rightarrow> json result \<Rightarrow>
   extract_error + incident_data" where
  "extract_incident_data_from_mcp_response int_of_str infer_frame loaded =
     (case and_then loaded (extract_body int_of_str infer_frame) of
        Inl JSONDecodeError \<Rightarrow> Inl FailedToParse
      | Inl e \<Rightarrow> Inl (ErrorExtracting e)
      | Inr result \<Rightarrow> Inr result)"

section \<open>The report formatter\<close>

text \<open>
  An f-string field \<^verbatim>\<open>{v}\<close> is \<^verbatim>\<open>str(v)\<close>: a string is itself, and every other
  document is its \<^verbatim>\<open>repr\<close>. The \<^verbatim>\<open>repr\<close> of documents and of floats are
  parameters of the model (\<open>reprf\<close> and \<open>float_repr\<close>).
\<close>

fun fmt :: "(json \<Rightarrow> pystr) \<Rightarrow> json \<Rightarrow> pystr" where
  "fmt reprf (JStr s) = s"
| "fmt reprf v = reprf v"

fun fmt_val :: "(json \<Rightarrow> pystr) \<Rightarrow> (pyfloat \<Rightarrow> pystr) \<Rightarrow> pyval \<Rightarrow> pystr" where
  "fmt_val reprf float_repr (Json v) = fmt reprf v"
| "fmt_val reprf float_repr (Float x) = float_repr x"

text \<open>\<^verbatim>\<open>sep.join(parts)\<close> on a list of strings.\<close>

fun join :: "pystr \<Rightarrow> pystr list \<Rightarrow> pystr" where
  "join sep [] = []"
| "join sep [x] = x"
| "join sep (x # y # ys) = x @ sep @ join sep (y # ys)"

text \<open>
  \<^verbatim>\<open>sorted(d.items(), key=lambda x: x[1], reverse=True)\<close>: by count, greatest
  first, items of equal count in their order in \<open>d\<close>. The sort is an insertion
  sort on \<^verbatim>\<open><\<close>. On counts that are all integers or all strings, and on counts
  of kinds that cannot be compared, it returns and raises as the interpreter's
  merge sort does; the two may compare different pairs, so where only some
  pairs of counts can be compared (lists of mixed content) one may raise where
  the other returns.
\<close>

fun insert_desc :: "json \<times> json \<Rightarrow> pydict \<Rightarrow> pydict result" where
  "insert_desc x [] = Inr [x]"
| "insert_desc x (y # ys) =
     and_then (py_lt (snd x) (snd y)) (\<lambda>less.
       if less then and_then (insert_desc x ys) (\<lambda>r. Inr (y # r)) else Inr (x # y # ys))"

fun sorted_by_count_desc :: "pydict \<Rightarrow> pydict result" where
  "sorted_by_count_desc [] = Inr []"
| "sorted_by_count_desc (x # xs) = and_then (sorted_by_count_desc xs) (insert_desc x)"

text \<open>
  \<^verbatim>\<open>sorted(d.items())\<close> orders the \<open>(key, count)\<close> tuples: by key, and by count
  where two keys are equal.
\<close>

definition tuple_lt :: "json \<times> json \<Rightarrow> json \<times> json \<Rightarrow> bool result" where
  "tuple_lt a b =
     (if py_eq (fst a) (fst b)
      then (if py_eq (snd a) (snd b) then Inr False else py_lt (snd a) (snd b))
      else py_lt (fst a) (fst b))"

fun insert_asc :: "json \<times> json \<Rightarrow> pydict \<Rightarrow> pydict result" where
  "insert_asc x [] = Inr [x]"
| "insert_asc x (y # ys) =
     and_then (tuple_lt y x) (\<lambda>less.
       if less then and_then (insert_asc x ys) (\<lambda>r. Inr (y # r)) else Inr (x # y # ys))"

fun sorted_items :: "pydict \<Rightarrow> pydict result" where
  "sorted_items [] = Inr []"
| "sorted_items (x # xs) = and_then (sorted_items xs) (insert_asc x)"

text \<open>The lines of the generated sections.\<close>

definition severity_line :: "(json \<Rightarrow> pystr) \<Rightarrow> json \<times> json \<Rightarrow> pystr" where
  "severity_line reprf item =
     lit ''  - '' @ [218] @ lit ''rove'' @ [328] @ lit '' '' @ fmt reprf (fst item) @
     lit '': '' @ fmt reprf (snd item) @ lit '' incident'' @ [367]"

text \<open>
  \<^verbatim>\<open>timeline_df.iterrows()\<close> with \<^verbatim>\<open>{row['date']}\<close> and \<^verbatim>\<open>{row['count']}\<close>:
  the \<^verbatim>\<open>str\<close> of the two cells of each row of the frame, in the order of
  the rows.
\<close>

fun row_strs :: "(json \<Rightarrow> pystr) \<Rightarrow> dataframe \<Rightarrow> (pystr \<times> pystr) list" where
  "row_strs reprf (Frame rows) =
     map (\<lambda>row. (fmt reprf (JStr (fst row)), fmt reprf (JInt (snd row)))) rows"
| "row_strs reprf (Inferred rows) = rows"

definition timeline_line :: "pystr \<times> pystr \<Rightarrow> pystr" where
  "timeline_line row =
     lit ''  - '' @ fst row @ lit '': '' @ snd row @ lit '' incident'' @ [367]"

definition top_line :: "(json \<Rightarrow> pystr) \<Rightarrow> json \<times> json \<Rightarrow> pystr" where
  "top_line reprf item = lit ''  - '' @ fmt reprf (fst item) @ lit '': '' @ fmt reprf (snd item)"

definition srcip_line :: "(json \<Rightarrow> pystr) \<Rightarrow> json \<times> json \<Rightarrow> pystr" where
  "srcip_line reprf item = top_line reprf item @ lit '' '' @ [250] @ lit ''tok'' @ [367]"

text \<open>\<^verbatim>\<open>stats[k]\<close>\<close>

definition stats_item :: "statistics \<Rightarrow> pystr \<Rightarrow> pyval result" where
  "stats_item stats k = (case map_of stats k of None \<Rightarrow> Inl KeyError | Some v \<Rightarrow> Inr v)"

text \<open>
  The template of the report in two parts: the title and the overview of the
  statistics up to the heading of the severity section, and the timeline and
  the five rankings after that section.
\<close>

definition overview_text ::
  "pystr \<Rightarrow> pystr \<Rightarrow> pystr \<Rightarrow> pystr \<Rightarrow> pystr \<Rightarrow> pystr \<Rightarrow> pystr \<Rightarrow> pystr" where
  "overview_text total_incidents daily_average critical_count top_country top_incident_type
     top_srcip top_srcip_count =
     [10] @ lit ''P'' @ [344] @ lit ''EHLED BEZPE'' @ [268] @ lit ''NOSTN'' @ [205] @
     lit ''CH INCIDENT'' @ [366, 10, 10] @ lit ''Z'' @ [225] @ lit ''kladn'' @ [237] @
     lit '' statistiky:'' @ [10] @ lit ''- Celkov'' @ [253] @ lit '' po'' @ [269] @
     lit ''et incident'' @ [367] @ lit '': '' @
     total_incidents @
     [10] @ lit ''- Denn'' @ [237] @ lit '' pr'' @ [367] @ lit ''m'' @ [283] @ lit ''r: '' @
     daily_average @
     [10] @ lit ''- Kritick'' @ [233] @ lit '' incidenty ('' @ [250] @ lit ''rove'' @ [328] @
     lit '' >9): '' @
     critical_count @
     [10] @ lit ''- Zem'' @ [283] @ lit '' kter'' @ [225] @ lit '' je nejv'' @ [283] @
     lit ''t'' @ [353, 237] @ lit ''m zdrojem incident'' @ [367] @ lit '': '' @
     top_country @
     [10] @ lit ''- Nej'' @ [269] @ lit ''ast'' @ [283] @ lit ''j'' @ [353, 237] @
     lit '' typ incidentu: '' @
     top_incident_type @
     [10] @ lit ''- Nejaktivn'' @ [283] @ lit ''j'' @ [353, 237] @ lit '' '' @ [250] @
     lit ''to'' @ [269, 237] @ lit ''c'' @ [237] @ lit '' IP: '' @
     top_srcip @
     lit '' ('' @
     top_srcip_count @
     lit '' '' @ [250] @ lit ''tok'' @ [367] @ lit '')'' @ [10, 10] @
     lit ''Distribuce podle z'' @ [225] @ lit ''va'' @ [382] @ lit ''nosti:'' @ [10]"

definition rankings_text ::
  "(json \<Rightarrow> pystr) \<Rightarrow> pystr \<Rightarrow> pydict \<Rightarrow> pydict \<Rightarrow> pydict \<Rightarrow> pydict \<Rightarrow> pydict \<Rightarrow> pystr" where
  "rankings_text reprf timeline_str top_regions top_types top_agents top_decoders top_srcips =
     [10, 10, 268] @ lit ''asov'' @ [225] @ lit '' osa (denn'' @ [237] @ lit '' po'' @ [269] @
     lit ''ty):'' @ [10] @
     timeline_str @
     [10, 10] @ lit ''Top 10 zem'' @ [237] @ lit '' podle po'' @ [269] @
     lit ''tu incident'' @ [367] @ lit '':'' @ [10] @
     join [10] (map (top_line reprf) top_regions) @
     [10, 10] @ lit ''Top 10 typ'' @ [367] @ lit '' incident'' @ [367] @ lit '':'' @ [10] @
     join [10] (map (top_line reprf) top_types) @
     [10, 10] @ lit ''Top 10 server'' @ [367] @ lit '' (agent'' @ [367] @
     lit '') s nejv'' @ [237] @ lit ''ce incidenty:'' @ [10] @
     join [10] (map (top_line reprf) top_agents) @
     [10, 10] @ lit ''Top 10 dekoder'' @ [367] @ lit '':'' @ [10] @
     join [10] (map (top_line reprf) top_decoders) @
     [10, 10] @ lit ''Top 20 '' @ [250] @ lit ''to'' @ [269, 237] @ lit ''c'' @ [237] @
     lit ''ch IP adres:'' @ [10] @
     join [10] (map (srcip_line reprf) top_srcips) @
     [10, 10] @ lit ''Vzorky incident'' @ [367] @ lit '' (prvn'' @ [237] @
     lit ''ch 200):'' @ [10]"

text \<open>
  The text built before the loop over the sample incidents: the five rankings
  and the severity order are computed first, then the template is filled from
  top to bottom.
\<close>

definition format_header ::
  "(json \<Rightarrow> pystr) \<Rightarrow> (pyfloat \<Rightarrow> pystr) \<Rightarrow> incident_data \<Rightarrow> pystr result" where
  "format_header reprf float_repr data =
     (let stats = statistics data; aggs = aggregations data; nl = [10] in
      and_then (sorted_by_count_desc (regions aggs)) (\<lambda>by_regions.
      and_then (sorted_by_count_desc (types aggs)) (\<lambda>by_types.
      and_then (sorted_by_count_desc (agents aggs)) (\<lambda>by_agents.
      and_then (sorted_by_count_desc (decoders aggs)) (\<lambda>by_decoders.
      and_then (sorted_by_count_desc (srcips aggs)) (\<lambda>by_srcips.
      and_then (sorted_items (severity aggs)) (\<lambda>by_level.
      let top_regions = take 10 by_regions;
          top_types = take 10 by_types;
          top_agents = take 10 by_agents;
          top_decoders = take 10 by_decoders;
          top_srcips = take 20 by_srcips;
          severity_dist = join nl (map (severity_line reprf) by_level);
          timeline_str = join nl (map timeline_line (row_strs reprf (timeline aggs)))
      in
      and_then (stats_item stats (lit ''total_incidents'')) (\<lambda>total_incidents.
      and_then (stats_item stats (lit ''daily_average'')) (\<lambda>daily_average.
      and_then (stats_item stats (lit ''critical_count'')) (\<lambda>critical_count.
      and_then (stats_item stats (lit ''top_country'')) (\<lambda>top_country.
      and_then (stats_item stats (lit ''top_incident_type'')) (\<lambda>top_incident_type.
      and_then (stats_item stats (lit ''top_srcip'')) (\<lambda>top_srcip.
      and_then (stats_item stats (lit ''top_srcip_count'')) (\<lambda>top_srcip_count.
        Inr (
          overview_text
            (fmt_val reprf float_repr total_incidents)
            (fmt_val reprf float_repr daily_average)
            (fmt_val reprf float_repr critical_count)
            (fmt_val reprf float_repr top_country)
            (fmt_val reprf float_repr top_incident_type)
            (fmt_val reprf float_repr top_srcip)
            (fmt_val reprf float_repr top_srcip_count) @
          severity_dist @
          rankings_text reprf timeline_str top_regions top_types top_agents top_decoders
            top_srcips)))))))))))))))"

text \<open>
  \<^verbatim>\<open>v[:200]\<close>: the first 200 characters of a string or elements of a list.
  Every other document raises (a dictionary raises \<^verbatim>\<open>TypeError\<close> up to
  Python 3.11 and \<^verbatim>\<open>KeyError\<close> from 3.12; the model has the former).
\<close>

fun py_slice200 :: "json \<Rightarrow> json result" where
  "py_slice200 (JStr s) = Inr (JStr (take 200 s))"
| "py_slice200 (JList xs) = Inr (JList (take 200 xs))"
| "py_slice200 _ = Inl TypeError"

text \<open>\<^verbatim>\<open>', '.join(v)\<close>: \<open>v\<close> is iterated and every item must be a string.\<close>

fun str_items :: "json list \<Rightarrow> pystr list result" where
  "str_items [] = Inr []"
| "str_items (JStr s # vs) = and_then (str_items vs) (\<lambda>ss. Inr (s # ss))"
| "str_items (_ # vs) = Inl TypeError"

definition py_join :: "pystr \<Rightarrow> json \<Rightarrow> pystr result" where
  "py_join sep v = and_then (and_then (py_iter v) str_items) (\<lambda>ss. Inr (join sep ss))"

text \<open>The nine fields of a sample entry, as rendered, in the order the entry's
  f-string evaluates them.\<close>

record entry_fields =
  f_timestamp :: pystr
  f_agent_name :: pystr
  f_rule_level :: pystr
  f_rule_description :: pystr
  f_rule_groups :: pystr
  f_country_name :: pystr
  f_src_ip :: pystr
  f_url :: pystr
  f_full_log :: pystr

definition incident_fields :: "(json \<Rightarrow> pystr) \<Rightarrow> json \<Rightarrow> entry_fields result" where
  "incident_fields reprf incident =
     and_then (py_get incident (lit ''timestamp'') NA) (\<lambda>timestamp.
     and_then (py_get incident (lit ''agent_name'') NA) (\<lambda>agent_name.
     and_then (py_get incident (lit ''rule_level'') NA) (\<lambda>rule_level.
     and_then (py_get incident (lit ''rule_description'') NA) (\<lambda>rule_description.
     and_then (and_then (py_get incident (lit ''rule_groups'') (JList []))
                 (py_join (lit '', ''))) (\<lambda>rule_groups.
     and_then (py_get incident (lit ''country_name'') NA) (\<lambda>country_name.
     and_then (py_get incident (lit ''src_ip'') NA) (\<lambda>src_ip.
     and_then (py_get incident (lit ''url'') NA) (\<lambda>url.
     and_then (and_then (py_get incident (lit ''full_log'') NA) py_slice200) (\<lambda>full_log.
       Inr \<lparr>f_timestamp = fmt reprf timestamp,
            f_agent_name = fmt reprf agent_name,
            f_rule_level = fmt reprf rule_level,
            f_rule_description = fmt reprf rule_description,
            f_rule_groups = rule_groups,
            f_country_name = fmt reprf country_name,
            f_src_ip = fmt reprf src_ip,
            f_url = fmt reprf url,
            f_full_log = fmt reprf full_log\<rparr>)))))))))"

definition entry_text :: "pystr \<Rightarrow> entry_fields \<Rightarrow> pystr" where
  "entry_text number fs =
     [10] @ lit ''Incident #'' @ number @
     lit '':'' @ [10] @ lit ''  - '' @ [268] @ lit ''as: '' @ f_timestamp fs @
     [10] @ lit ''  - Server: '' @ f_agent_name fs @
     [10] @ lit ''  - Z'' @ [225] @ lit ''va'' @ [382] @ lit ''nost: '' @ f_rule_level fs @
     [10] @ lit ''  - Popis: '' @ f_rule_description fs @
     [10] @ lit ''  - Typy: '' @ f_rule_groups fs @
     [10] @ lit ''  - Zem'' @ [283] @ lit '': '' @ f_country_name fs @
     [10] @ lit ''  - Zdrojov'' @ [225] @ lit '' IP: '' @ f_src_ip fs @
     [10] @ lit ''  - URL: '' @ f_url fs @
     [10] @ lit ''  - Log: '' @ f_full_log fs @
     [10]"

definition render_incident :: "(json \<Rightarrow> pystr) \<Rightarrow> int \<Rightarrow> json \<Rightarrow> pystr result" where
  "render_incident reprf i incident =
     and_then (incident_fields reprf incident) (\<lambda>fs. Inr (entry_text (fmt reprf (JInt i)) fs))"

text \<open>
  \<^verbatim>\<open>for i, incident in enumerate(samples, 1): formatted += entry\<close>, from the
  number \<open>i\<close> on.
\<close>

fun incident_loop :: "(json \<Rightarrow> pystr) \<Rightarrow> int \<Rightarrow> json list \<Rightarrow> pystr \<Rightarrow> pystr result" where
  "incident_loop reprf i [] formatted = Inr formatted"
| "incident_loop reprf i (incident # rest) formatted =
     and_then (render_incident reprf i incident) (\<lambda>entry.
       incident_loop reprf (i + 1) rest (formatted @ entry))"

definition format_data_for_llm_analysis ::
  "(json \<Rightarrow> pystr) \<Rightarrow> (pyfloat \<Rightarrow> pystr) \<Rightarrow> incident_data \<Rightarrow> pystr result" where
  "format_data_for_llm_analysis reprf float_repr data =
     and_then (format_header reprf float_repr data) (\<lambda>formatted.
     and_then (and_then (py_slice200 (sample_incidents data)) py_iter) (\<lambda>samples.
       incident_loop reprf 1 samples formatted))"

section \<open>Concrete runtime functions for the examples\<close>

text \<open>
  The examples below need instances of the parameters. \<open>decimal_int\<close> reads an
  optional sign and ASCII decimal digits; \<^verbatim>\<open>int\<close> accepts more (surrounding
  blanks, underscores between digits, the digits of other scripts), and the
  examples apply it to plain numerals only.
\<close>

definition digit_value :: "nat \<Rightarrow> int option" where
  "digit_value c = (if 48 \<le> c \<and> c \<le> 57 then Some (int c - 48) else None)"

fun digits_value :: "int \<Rightarrow> pystr \<Rightarrow> int option" where
  "digits_value acc [] = Some acc"
| "digits_value acc (c # cs) =
     (case digit_value c of None \<Rightarrow> None | Some v \<Rightarrow> digits_value (10 * acc + v) cs)"

fun decimal_int :: "pystr \<Rightarrow> int option" where
  "decimal_int [] = None"
| "decimal_int (c # cs) =
     (if c = 45 then (if cs = [] then None else map_option uminus (digits_value 0 cs))
      else if c = 43 then (if cs = [] then None else digits_value 0 cs)
      else digits_value 0 (c # cs))"

text \<open>
  \<open>decimal n\<close> is the decimal numeral of \<open>n\<close>, most significant digit first.
  \<open>decimal_digits k n\<close> builds it with at most \<open>k\<close> divisions by ten, and \<open>n\<close>
  itself is always enough of them.
\<close>

fun decimal_digits :: "nat \<Rightarrow> nat \<Rightarrow> pystr" where
  "decimal_digits 0 n = [48 + n mod 10]"
| "decimal_digits (Suc k) n =
     (if n < 10 then [48 + n] else decimal_digits k (n div 10) @ [48 + n mod 10])"

definition decimal :: "nat \<Rightarrow> pystr" where
  "decimal n = decimal_digits n n"

definition int_repr :: "int \<Rightarrow> pystr" where
  "int_repr i = (if i < 0 then lit ''-'' @ decimal (nat (- i)) else decimal (nat i))"

text \<open>
  \<open>simple_repr\<close> is \<^verbatim>\<open>repr\<close> on \<^verbatim>\<open>None\<close>, integers, and lists and dictionaries
  of these and of strings that need no escape (printable, without quotes and
  backslashes).
\<close>

fun simple_repr :: "json \<Rightarrow> pystr" where
  "simple_repr JNull = lit ''None''"
| "simple_repr (JInt i) = int_repr i"
| "simple_repr (JStr s) = [39] @ s @ [39]"
| "simple_repr (JList xs) = lit ''['' @ join (lit '', '') (map simple_repr xs) @ lit '']''"
| "simple_repr (JDict d) =
     lit ''{'' @
     join (lit '', '') (map (\<lambda>kv. [39] @ fst kv @ [39] @ lit '': '' @ simple_repr (snd kv)) d) @
     lit ''}''"

text \<open>
  \<open>tenths_repr\<close> is \<^verbatim>\<open>repr\<close> on the floats below \<open>10^16\<close> that
  \<^verbatim>\<open>round(x, 1)\<close> returns: the digits of the nearest multiple of one tenth.
\<close>

definition tenths_repr :: "pyfloat \<Rightarrow> pystr" where
  "tenths_repr x =
     (let t = round_half_even_div (10 * fsig x * 2 ^ nat (fexp x)) (2 ^ nat (- fexp x)) in
      (if fsign x then lit ''-'' else []) @ decimal (nat (t div 10)) @ lit ''.'' @
      decimal (nat (t mod 10)))"

section \<open>Predicates of the specification\<close>





definition empty_aggs :: parsed_aggs where
  "empty_aggs = \<lparr>severity = [], regions = [], types = [], agents = [], decoders = [],
                  srcips = [], timeline = Frame []\<rparr>"

text \<open>
  The rows of a timeline are ordered by date ascending with no duplicate dates
  when each date is less than every later one.
\<close>

definition dates_ascending :: "(pystr \<times> int) list \<Rightarrow> bool" where
  "dates_ascending rows = sorted_wrt (\<lambda>a b. str_lt (fst a) (fst b)) rows"

definition timeline_bucket :: "string \<Rightarrow> int \<Rightarrow> json" where
  "timeline_bucket date n =
     JDict [(lit ''key_as_string'', JStr (lit date)), (lit ''doc_count'', JInt n)]"

text \<open>
  The critical count of the specification: a severity key is parsed as an integer
  (an integer is itself, a string is what \<^verbatim>\<open>int\<close> makes of it), and the counts
  of the keys above 9 are added up.
\<close>

fun key_int :: "(pystr \<Rightarrow> int option) \<Rightarrow> json \<Rightarrow> int option" where
  "key_int int_of_str (JInt i) = Some i"
| "key_int int_of_str (JStr s) = int_of_str s"
| "key_int int_of_str _ = None"

definition is_critical :: "(pystr \<Rightarrow> int option) \<Rightarrow> json \<times> json \<Rightarrow> bool" where
  "is_critical int_of_str item =
     (case key_int int_of_str (fst item) of None \<Rightarrow> False | Some n \<Rightarrow> 9 < n)"

fun count_int :: "json \<Rightarrow> int" where
  "count_int (JInt c) = c"
| "count_int _ = 0"

definition spec_critical_count :: "(pystr \<Rightarrow> int option) \<Rightarrow> pydict \<Rightarrow> int" where
  "spec_critical_count int_of_str sev =
     sum_list (map (\<lambda>item. count_int (snd item)) (filter (is_critical int_of_str) sev))"

definition severity_example :: parsed_aggs where
  "severity_example = empty_aggs\<lparr>severity := [(JStr (lit ''10''), JInt 3), (JInt 7, JInt 5)]\<rparr>"

text \<open>
  The keys of the dictionary \<open>calculate_statistics\<close> returns, and the mappings
  of the examples for the top-ranked keys.
\<close>

definition statistics_keys :: "pystr list" where
  "statistics_keys =
     [lit ''total_incidents'', lit ''daily_average'', lit ''critical_count'', lit ''top_country'',
      lit ''top_incident_type'', lit ''top_srcip'', lit ''top_srcip_count'']"

definition regions_example :: pydict where
  "regions_example =
     [(NA, JInt 50), (JStr (lit ''Czechia''), JInt 10), (JStr (lit ''Germany''), JInt 10)]"

definition regions_tie_example :: pydict where
  "regions_tie_example =
     [(NA, JInt 50), (JStr (lit ''Germany''), JInt 10), (JStr (lit ''Czechia''), JInt 10)]"

definition only_na_example :: parsed_aggs where
  "only_na_example = empty_aggs\<lparr>regions := [(NA, JInt 5)]\<rparr>"

text \<open>
  The aggregations are in order for the statistics when the critical count and
  the three top-ranked keys can be computed from them.
\<close>

definition aggregates_ok :: "(pystr \<Rightarrow> int option) \<Rightarrow> parsed_aggs \<Rightarrow> bool" where
  "aggregates_ok int_of_str p \<longleftrightarrow>
     \<not> isl (critical_loop int_of_str (severity p) 0) \<and>
     \<not> isl (top_key (no_na (regions p))) \<and>
     \<not> isl (top_key (no_na (types p))) \<and>
     \<not> isl (top_key (no_na (srcips p)))"

text \<open>
  The document has no \<^verbatim>\<open>days\<close> when it has no \<^verbatim>\<open>query_info\<close>, or a
  \<^verbatim>\<open>query_info\<close> dictionary without the key. The first example is the
  end-to-end scenario of the specification without \<^verbatim>\<open>total_hits\<close> and
  \<^verbatim>\<open>query_info\<close>; the others have only the days, and only the total.
\<close>

fun lacks_days :: "json option \<Rightarrow> bool" where
  "lacks_days None = True"
| "lacks_days (Some (JDict q)) = (map_of q (lit ''days'') = None)"
| "lacks_days (Some _) = False"

definition bucket :: "json \<Rightarrow> int \<Rightarrow> json" where
  "bucket k n = JDict [(lit ''key'', k), (lit ''doc_count'', JInt n)]"

definition only_aggregations_example :: "(pystr \<times> json) list" where
  "only_aggregations_example =
     [(lit ''aggregations'', JDict
        [(lit ''by_level'', JDict [(lit ''buckets'', JList [bucket (JInt 10) 3, bucket (JInt 5) 67])]),
         (lit ''by_region'', JDict [(lit ''buckets'',
            JList [bucket NA 60, bucket (JStr (lit ''Czechia'')) 10])]),
         (lit ''timeline'', JDict [(lit ''buckets'', JList [timeline_bucket ''2025-01-01'' 70])])])]"

definition only_days_example :: "(pystr \<times> json) list" where
  "only_days_example = [(lit ''query_info'', JDict [(lit ''days'', JInt 14)])]"

definition only_total_example :: "(pystr \<times> json) list" where
  "only_total_example = [(lit ''total_hits'', JInt 70)]"

definition only_aggregations_parsed :: parsed_aggs where
  "only_aggregations_parsed =
     \<lparr>severity = [(JInt 10, JInt 3), (JInt 5, JInt 67)],
      regions = [(NA, JInt 60), (JStr (lit ''Czechia''), JInt 10)],
      types = [], agents = [], decoders = [], srcips = [],
      timeline = Frame [(lit ''2025-01-01'', 70)]\<rparr>"

text \<open>
  A sample record can be rendered when it is a dictionary whose
  \<^verbatim>\<open>rule_groups\<close>, if present, is a list of strings and whose \<^verbatim>\<open>full_log\<close>, if
  present, is a string or a list. \<open>field_or_na d k\<close> is \<^verbatim>\<open>d.get(k, 'N/A')\<close>.
\<close>

fun string_list :: "json \<Rightarrow> bool" where
  "string_list (JList []) = True"
| "string_list (JList (JStr s # vs)) = string_list (JList vs)"
| "string_list _ = False"

fun sliceable :: "json \<Rightarrow> bool" where
  "sliceable (JStr s) = True"
| "sliceable (JList vs) = True"
| "sliceable _ = False"

fun renderable_incident :: "json \<Rightarrow> bool" where
  "renderable_incident (JDict d) =
     ((case map_of d (lit ''rule_groups'') of None \<Rightarrow> True | Some v \<Rightarrow> string_list v) \<and>
      (case map_of d (lit ''full_log'') of None \<Rightarrow> True | Some v \<Rightarrow> sliceable v))"
| "renderable_incident _ = False"

definition field_or_na :: "(pystr \<times> json) list \<Rightarrow> pystr \<Rightarrow> json" where
  "field_or_na d k = (case map_of d k of None \<Rightarrow> NA | Some v \<Rightarrow> v)"

text \<open>
  A result with 500 sample records, none with any field but a log of 300
  characters.
\<close>

definition empty_statistics :: statistics where
  "empty_statistics =
     [(lit ''total_incidents'', Json (JInt 0)),
      (lit ''daily_average'', Float (PyFloat False 0 0)),
      (lit ''critical_count'', Json (JInt 0)),
      (lit ''top_country'', Json NA),
      (lit ''top_incident_type'', Json NA),
      (lit ''top_srcip'', Json NA),
      (lit ''top_srcip_count'', Json (JInt 0))]"

definition long_log_incident :: json where
  "long_log_incident = JDict [(lit ''full_log'', JStr (replicate 300 120))]"

definition many_samples_example :: incident_data where
  "many_samples_example =
     \<lparr>query_info = JDict [], total_hits = JInt 0, statistics = empty_statistics,
      aggregations = empty_aggs, sample_incidents = JList (replicate 500 long_log_incident)\<rparr>"

text \<open>
  Documents that hold nothing but severity buckets, and what the extraction
  makes of them; a list of items is in ascending order of level when its keys
  are integers that increase.
\<close>

definition levels_doc :: "json list \<Rightarrow> (pystr \<times> json) list" where
  "levels_doc buckets =
     [(lit ''aggregations'', JDict [(lit ''by_level'', JDict [(lit ''buckets'', JList buckets)])])]"

definition levels_result :: "pydict \<Rightarrow> int \<Rightarrow> incident_data" where
  "levels_result sev critical =
     \<lparr>query_info = JDict [], total_hits = JInt 0,
      statistics =
        [(lit ''total_incidents'', Json (JInt 0)),
         (lit ''daily_average'', Float (PyFloat False 0 0)),
         (lit ''critical_count'', Json (JInt critical)),
         (lit ''top_country'', Json NA),
         (lit ''top_incident_type'', Json NA),
         (lit ''top_srcip'', Json NA),
         (lit ''top_srcip_count'', Json (JInt 0))],
      aggregations = empty_aggs\<lparr>severity := sev\<rparr>,
      sample_incidents = JList []\<rparr>"

fun level_less :: "json \<Rightarrow> json \<Rightarrow> bool" where
  "level_less (JInt i) (JInt j) = (i < j)"
| "level_less _ _ = False"

definition ascending_levels :: "pydict \<Rightarrow> bool" where
  "ascending_levels items = sorted_wrt (\<lambda>a b. level_less (fst a) (fst b)) items"

section \<open>Properties\<close>

subsection \<open>Sequencing and literals\<close>

lemma and_then_Inr [simp]: "and_then (Inr x) f = f x"
  by (simp add: and_then_def)

lemma and_then_Inl [simp]: "and_then (Inl e) f = Inl e"
  by (simp add: and_then_def)

lemma and_then_eq_Inr: "and_then r f = Inr y \<longleftrightarrow> (\<exists>x. r = Inr x \<and> f x = Inr y)"
  by (cases r) simp_all

lemma lit_eq_iff: "lit a = lit b \<longleftrightarrow> a = b"
  by (simp add: lit_def inj_map_eq_map inj_on_def)





subsection \<open>Absent and empty sections\<close>



subsection \<open>The timeline keeps the order of its buckets\<close>

lemma timeline_loop_rows:
  assumes "length ds = length bs" and "length cs = length bs"
    and "\<forall>i < length bs. py_getitem (bs ! i) (lit ''key_as_string'') = Inr (ds ! i) \<and>
                          py_getitem (bs ! i) (lit ''doc_count'') = Inr (cs ! i)"
  shows "timeline_loop bs data = Inr (data @ zip ds cs)"
  using assms
proof (induction bs arbitrary: ds cs data)
  case Nil
  then show ?case by simp
next
  case (Cons b bs)
  from Cons.prems obtain d ds' c cs' where eq: "ds = d # ds'" "cs = c # cs'"
    by (cases ds; cases cs) auto
  from Cons.prems(3) eq have hd: "py_getitem b (lit ''key_as_string'') = Inr d"
    "py_getitem b (lit ''doc_count'') = Inr c"
    by auto
  from Cons.prems(3) eq have tl:
    "\<forall>i < length bs. py_getitem (bs ! i) (lit ''key_as_string'') = Inr (ds' ! i) \<and>
                      py_getitem (bs ! i) (lit ''doc_count'') = Inr (cs' ! i)"
    by fastforce
  from Cons.prems eq have len: "length ds' = length bs" "length cs' = length bs"
    by auto
  show ?case
    using Cons.IH [OF len tl, of "data @ [(d, c)]"] hd eq by simp
qed

lemma plain_rows_zip:
  assumes "length ds = length cs" and "\<forall>c \<in> set cs. - (2 ^ 63) \<le> c \<and> c < 2 ^ 63"
  shows "plain_rows (zip (map JStr ds) (map JInt cs)) = Some (zip ds cs)"
  using assms by (induction ds cs rule: list_induct2) simp_all

lemma dates_ascending_zip:
  "length ds = length cs \<Longrightarrow> dates_ascending (zip ds cs) \<longleftrightarrow> sorted_wrt str_lt ds"
proof -
  assume len: "length ds = length cs"
  have "sorted_wrt (\<lambda>a b. str_lt (fst a) (fst b)) (zip ds cs)
        \<longleftrightarrow> sorted_wrt str_lt (map fst (zip ds cs))"
    by (simp add: sorted_wrt_map)
  with len show ?thesis by (simp add: dates_ascending_def)
qed

lemma str_lt_irrefl: "\<not> str_lt s s"
  by (induction s) simp_all

lemma dates_ascending_distinct:
  "dates_ascending rows \<Longrightarrow> distinct (map fst rows)"
proof (induction rows)
  case Nil
  then show ?case by simp
next
  case (Cons row rows)
  then have "\<forall>r \<in> set rows. str_lt (fst row) (fst r)" and "dates_ascending rows"
    by (simp_all add: dates_ascending_def)
  with Cons.IH str_lt_irrefl show ?case by force
qed

text \<open>
  Claim C9, as amended. When every bucket has a string \<^verbatim>\<open>key_as_string\<close> and
  a \<^verbatim>\<open>doc_count\<close> that is an integer of 64 bits, the parser returns the
  timeline that has one row per bucket, in the order of the buckets, with the
  dates and counts of the buckets. So the timeline is ordered by date ascending
  exactly when the dates of the buckets are, and then it repeats no date. The
  parser neither sorts nor merges.
\<close>

theorem timeline_preserves_source_order:
  assumes "length ds = length bs" and "length cs = length bs"
    and "\<forall>i < length bs.
           py_getitem (bs ! i) (lit ''key_as_string'') = Inr (JStr (ds ! i)) \<and>
           py_getitem (bs ! i) (lit ''doc_count'') = Inr (JInt (cs ! i)) \<and>
           - (2 ^ 63) \<le> cs ! i \<and> cs ! i < 2 ^ 63"
  shows "parse_timeline_aggregation infer (JList bs) = Inr (Frame (zip ds cs)) \<and>
         (dates_ascending (zip ds cs) \<longleftrightarrow> sorted_wrt str_lt ds) \<and>
         (dates_ascending (zip ds cs) \<longrightarrow> distinct (map fst (zip ds cs)))"
proof -
  have len: "length (map JStr ds) = length bs" "length (map JInt cs) = length bs"
    using assms(1,2) by simp_all
  have cells: "\<forall>i < length bs.
      py_getitem (bs ! i) (lit ''key_as_string'') = Inr (map JStr ds ! i) \<and>
      py_getitem (bs ! i) (lit ''doc_count'') = Inr (map JInt cs ! i)"
    using assms by simp
  have range: "\<forall>c \<in> set cs. - (2 ^ 63) \<le> c \<and> c < 2 ^ 63"
    using assms(2,3) by (auto simp: in_set_conv_nth)
  from assms(1,2) have eq: "length ds = length cs" by simp
  from timeline_loop_rows [OF len cells, of "[]"] plain_rows_zip [OF eq range]
  have "parse_timeline_aggregation infer (JList bs) = Inr (Frame (zip ds cs))"
    by (simp add: parse_timeline_aggregation_def data_frame_def)
  with dates_ascending_zip [OF eq] dates_ascending_distinct [of "zip ds cs"]
  show ?thesis by blast
qed

theorem timeline_preserves_source_order_witness:
  "\<forall>infer.
     parse_timeline_aggregation infer
       (JList [timeline_bucket ''2025-01-01'' 3, timeline_bucket ''2025-01-02'' 5])
     = Inr (Frame [(lit ''2025-01-01'', 3), (lit ''2025-01-02'', 5)]) \<and>
     dates_ascending [(lit ''2025-01-01'', 3), (lit ''2025-01-02'', 5)] \<and>
     sorted_wrt str_lt [lit ''2025-01-01'', lit ''2025-01-02''] \<and>
     distinct (map fst [(lit ''2025-01-01'', 3 :: int), (lit ''2025-01-02'', 5)])"
proof
  fix infer
  have cells: "\<forall>i<length [timeline_bucket ''2025-01-01'' 3, timeline_bucket ''2025-01-02'' 5].
       py_getitem ([timeline_bucket ''2025-01-01'' 3, timeline_bucket ''2025-01-02'' 5] ! i)
        (lit ''key_as_string'') =
       Inr (JStr ([lit ''2025-01-01'', lit ''2025-01-02''] ! i)) \<and>
       py_getitem ([timeline_bucket ''2025-01-01'' 3, timeline_bucket ''2025-01-02'' 5] ! i)
        (lit ''doc_count'') =
       Inr (JInt ([3, 5] ! i)) \<and>
       - (2 ^ 63) \<le> [3, 5 :: int] ! i \<and> [3, 5 :: int] ! i < 2 ^ 63"
    by (simp add: timeline_bucket_def lit_eq_iff less_Suc_eq nth_Cons')
  have asc: "sorted_wrt str_lt [lit ''2025-01-01'', lit ''2025-01-02'']"
    by (simp add: lit_def)
  from timeline_preserves_source_order
    [of "[lit ''2025-01-01'', lit ''2025-01-02'']"
        "[timeline_bucket ''2025-01-01'' 3, timeline_bucket ''2025-01-02'' 5]" "[3, 5]" infer,
     OF _ _ cells] asc
  show "parse_timeline_aggregation infer
       (JList [timeline_bucket ''2025-01-01'' 3, timeline_bucket ''2025-01-02'' 5])
     = Inr (Frame [(lit ''2025-01-01'', 3), (lit ''2025-01-02'', 5)]) \<and>
     dates_ascending [(lit ''2025-01-01'', 3), (lit ''2025-01-02'', 5)] \<and>
     sorted_wrt str_lt [lit ''2025-01-01'', lit ''2025-01-02''] \<and>
     distinct (map fst [(lit ''2025-01-01'', 3 :: int), (lit ''2025-01-02'', 5)])"
    by simp
qed

text \<open>
  The claim as stated fails on buckets that arrive out of order and repeat a
  date: the timeline repeats them as they come.
\<close>

theorem timeline_not_sorted_counterexample:
  "\<forall>infer.
     parse_timeline_aggregation infer
       (JList [timeline_bucket ''2025-01-02'' 5, timeline_bucket ''2025-01-01'' 3,
               timeline_bucket ''2025-01-01'' 4])
     = Inr (Frame [(lit ''2025-01-02'', 5), (lit ''2025-01-01'', 3), (lit ''2025-01-01'', 4)]) \<and>
     \<not> dates_ascending [(lit ''2025-01-02'', 5), (lit ''2025-01-01'', 3), (lit ''2025-01-01'', 4)] \<and>
     \<not> distinct (map fst
         [(lit ''2025-01-02'', 5 :: int), (lit ''2025-01-01'', 3), (lit ''2025-01-01'', 4)])"
  by (simp add: parse_timeline_aggregation_def data_frame_def timeline_bucket_def
      dates_ascending_def lit_eq_iff) (simp add: lit_def)

subsection \<open>An upstream error aborts the extraction\<close>

text \<open>
  Claim C5. A document with a top-level \<^verbatim>\<open>error\<close> key never yields a result:
  whatever else it holds, the extraction raises the \<^verbatim>\<open>ValueError\<close> that
  carries the value of that key.
\<close>

theorem error_key_short_circuits:
  assumes "lit ''error'' \<in> fst ` set d"
  shows "\<exists>v. map_of d (lit ''error'') = Some v \<and>
             extract_incident_data_from_mcp_response int_of_str infer (Inr (JDict d))
             = Inl (ErrorExtracting (McpToolError v))"
proof -
  from assms obtain v where v: "map_of d (lit ''error'') = Some v"
    by (metis map_of_eq_None_iff not_Some_eq)
  with assms show ?thesis
    by (simp add: extract_incident_data_from_mcp_response_def extract_body_def)
qed

theorem error_key_short_circuits_witness:
  "\<forall>infer.
     extract_incident_data_from_mcp_response decimal_int infer
       (Inr (JDict [(lit ''total_hits'', JInt 70), (lit ''error'', JStr (lit ''timeout''))]))
     = Inl (ErrorExtracting (McpToolError (JStr (lit ''timeout''))))"
proof
  fix infer
  show "extract_incident_data_from_mcp_response decimal_int infer
       (Inr (JDict [(lit ''total_hits'', JInt 70), (lit ''error'', JStr (lit ''timeout''))]))
     = Inl (ErrorExtracting (McpToolError (JStr (lit ''timeout''))))"
    using error_key_short_circuits
      [of "[(lit ''total_hits'', JInt 70), (lit ''error'', JStr (lit ''timeout''))]"
          decimal_int infer]
    by (simp add: lit_eq_iff)
qed

subsection \<open>The sum over the critical levels\<close>

lemma py_int_Inr_iff: "py_int ios k = Inr n \<longleftrightarrow> key_int ios k = Some n"
  by (cases k) (auto split: option.splits)

lemma py_add_int_Inr_iff: "py_add_int acc c = Inr r \<longleftrightarrow> (\<exists>i. c = JInt i \<and> r = acc + i)"
  by (cases c) auto

lemma critical_loop_Inr:
  "critical_loop ios sev acc = Inr r \<Longrightarrow>
     r = acc + spec_critical_count ios sev \<and> (\<forall>item \<in> set sev. key_int ios (fst item) \<noteq> None)"
proof (induction sev arbitrary: acc)
  case Nil
  then show ?case by (simp add: spec_critical_count_def)
next
  case (Cons item sev)
  from Cons.prems obtain n where n: "key_int ios (fst item) = Some n"
    by (auto simp: and_then_eq_Inr py_int_Inr_iff)
  then have pi: "py_int ios (fst item) = Inr n" by (simp add: py_int_Inr_iff)
  show ?case
  proof (cases "9 < n")
    case True
    with Cons.prems pi obtain i where i: "snd item = JInt i"
      and rest: "critical_loop ios sev (acc + i) = Inr r"
      by (auto simp: and_then_eq_Inr py_add_int_Inr_iff)
    from Cons.IH [OF rest] n True i show ?thesis
      by (simp add: spec_critical_count_def is_critical_def)
  next
    case False
    with Cons.prems pi have rest: "critical_loop ios sev acc = Inr r" by simp
    from Cons.IH [OF rest] n False show ?thesis
      by (simp add: spec_critical_count_def is_critical_def)
  qed
qed

lemma critical_loop_total:
  assumes "\<forall>item \<in> set sev. key_int ios (fst item) \<noteq> None \<and>
             (is_critical ios item \<longrightarrow> (\<exists>c. snd item = JInt c))"
  shows "critical_loop ios sev acc = Inr (acc + spec_critical_count ios sev)"
  using assms
proof (induction sev arbitrary: acc)
  case Nil
  then show ?case by (simp add: spec_critical_count_def)
next
  case (Cons item sev)
  from Cons.prems obtain n where n: "key_int ios (fst item) = Some n" by auto
  then have pi: "py_int ios (fst item) = Inr n" by (simp add: py_int_Inr_iff)
  have IH: "critical_loop ios sev a = Inr (a + spec_critical_count ios sev)" for a
    using Cons.IH Cons.prems by simp
  show ?case
  proof (cases "9 < n")
    case True
    with n Cons.prems obtain c where c: "snd item = JInt c"
      by (auto simp: is_critical_def)
    with True n pi IH show ?thesis
      by (simp add: spec_critical_count_def is_critical_def)
  next
    case False
    with n pi IH show ?thesis
      by (simp add: spec_critical_count_def is_critical_def)
  qed
qed

lemma critical_loop_non_numeric:
  assumes "\<exists>item \<in> set sev. key_int ios (fst item) = None"
  shows "\<exists>e. critical_loop ios sev acc = Inl e"
proof (cases "critical_loop ios sev acc")
  case (Inr r)
  from critical_loop_Inr [OF Inr] assms show ?thesis by blast
qed blast

lemma critical_loop_same_levels:
  assumes "list_all2 (\<lambda>a b. key_int ios (fst a) = key_int ios (fst b) \<and>
                            key_int ios (fst a) \<noteq> None \<and> snd a = snd b) sev sev'"
  shows "critical_loop ios sev acc = critical_loop ios sev' acc"
  using assms
proof (induction sev sev' arbitrary: acc rule: list_all2_induct)
  case Nil
  then show ?case by simp
next
  case (Cons a sev b sev')
  from Cons.hyps(1) have ne: "key_int ios (fst a) \<noteq> None"
    and eq: "key_int ios (fst a) = key_int ios (fst b)"
    by blast+
  from ne obtain n where n: "key_int ios (fst a) = Some n" by blast
  with eq have "key_int ios (fst b) = Some n" by simp
  with n have "py_int ios (fst a) = Inr n" "py_int ios (fst b) = Inr n"
    by (simp_all add: py_int_Inr_iff)
  with Cons.hyps(1) Cons.IH show ?case
    by (cases "py_add_int acc (snd b)") simp_all
qed

lemma calculate_statistics_Inr:
  assumes "calculate_statistics ios hits p days = Inr st"
  obtains c tc tt ts q avg where
    "critical_loop ios (severity p) 0 = Inr c"
    "top_key (no_na (regions p)) = Inr tc"
    "top_key (no_na (types p)) = Inr tt"
    "top_key (no_na (srcips p)) = Inr ts"
    "py_truediv hits days = Inr q"
    "py_round1 q = Inr avg"
    "st = [(lit ''total_incidents'', Json hits),
           (lit ''daily_average'', Float avg),
           (lit ''critical_count'', Json (JInt c)),
           (lit ''top_country'', Json tc),
           (lit ''top_incident_type'', Json tt),
           (lit ''top_srcip'', Json ts),
           (lit ''top_srcip_count'',
              Json (if ts \<noteq> NA
                    then (case map_of (no_na (srcips p)) ts of None \<Rightarrow> JInt 0 | Some c \<Rightarrow> c)
                    else JInt 0))]"
  using assms unfolding calculate_statistics_def Let_def
  by (auto simp: and_then_eq_Inr)

lemma calculate_statistics_critical_Inl:
  "critical_loop ios (severity p) 0 = Inl e \<Longrightarrow> calculate_statistics ios hits p days = Inl e"
  by (simp add: calculate_statistics_def)

subsection \<open>The item of greatest count\<close>

lemma no_na_set: "set (no_na d) = {item \<in> set d. fst item \<noteq> NA}"
  by (auto simp: no_na_def)

lemma max_loop_first_greatest:
  assumes "\<forall>item \<in> set (best # items). \<exists>c. snd item = JInt c"
  shows "\<exists>pre r post. best # items = pre @ r # post \<and> max_loop best items = Inr r \<and>
           (\<forall>x \<in> set pre. count_int (snd x) < count_int (snd r)) \<and>
           (\<forall>x \<in> set post. count_int (snd x) \<le> count_int (snd r))"
  using assms
proof (induction items arbitrary: best)
  case Nil
  have "[best] = [] @ best # []" by simp
  then show ?case by (metis empty_iff list.set(1) max_loop.simps(1))
next
  case (Cons item items)
  from Cons.prems obtain b i where b: "snd best = JInt b" and i: "snd item = JInt i"
    by auto
  show ?case
  proof (cases "b < i")
    case True
    from Cons.prems have "\<forall>x \<in> set (item # items). \<exists>c. snd x = JInt c" by simp
    from Cons.IH [OF this] obtain pre r post where
      split: "item # items = pre @ r # post" and r: "max_loop item items = Inr r"
      and pre: "\<forall>x \<in> set pre. count_int (snd x) < count_int (snd r)"
      and post: "\<forall>x \<in> set post. count_int (snd x) \<le> count_int (snd r)"
      by blast
    have "count_int (snd item) \<le> count_int (snd r)"
    proof (cases pre)
      case Nil
      with split show ?thesis by simp
    next
      case (Cons p ps)
      with split pre show ?thesis by auto
    qed
    with True b i have "count_int (snd best) < count_int (snd r)" by simp
    with pre have pre': "\<forall>x \<in> set (best # pre). count_int (snd x) < count_int (snd r)" by simp
    from split have "best # item # items = (best # pre) @ r # post" by simp
    moreover from r True b i have "max_loop best (item # items) = Inr r" by simp
    ultimately show ?thesis using pre' post by blast
  next
    case False
    from Cons.prems have "\<forall>x \<in> set (best # items). \<exists>c. snd x = JInt c" by simp
    from Cons.IH [OF this] obtain pre r post where
      split: "best # items = pre @ r # post" and r: "max_loop best items = Inr r"
      and pre: "\<forall>x \<in> set pre. count_int (snd x) < count_int (snd r)"
      and post: "\<forall>x \<in> set post. count_int (snd x) \<le> count_int (snd r)"
      by blast
    from r False b i have res: "max_loop best (item # items) = Inr r" by simp
    show ?thesis
    proof (cases pre)
      case Nil
      with split have "r = best" "post = items" by simp_all
      with False b i post have "\<forall>x \<in> set (item # items). count_int (snd x) \<le> count_int (snd r)"
        by simp
      moreover from \<open>r = best\<close> have "best # item # items = [] @ r # (item # items)" by simp
      ultimately show ?thesis using res by (metis empty_iff list.set(1))
    next
      case (Cons p ps)
      with split have p: "p = best" and items: "items = ps @ r # post" by simp_all
      from pre Cons p have "count_int (snd best) < count_int (snd r)" by simp
      with False b i have "count_int (snd item) < count_int (snd r)" by simp
      with pre Cons p have "\<forall>x \<in> set (best # item # ps). count_int (snd x) < count_int (snd r)"
        by simp
      moreover from items have "best # item # items = (best # item # ps) @ r # post" by simp
      ultimately show ?thesis using res post by blast
    qed
  qed
qed

lemma max_loop_member:
  "max_loop best items = Inr r \<Longrightarrow> r \<in> set (best # items)"
proof (induction items arbitrary: best)
  case Nil
  then show ?case by simp
next
  case (Cons item items)
  from Cons.prems obtain g where rest: "max_loop (if g then item else best) items = Inr r"
    by (auto simp: and_then_eq_Inr)
  from Cons.IH [OF rest] show ?case by (cases g) auto
qed

lemma top_key_member:
  assumes "top_key pool = Inr k" and "pool \<noteq> []"
  shows "k \<in> fst ` set pool"
proof -
  from assms obtain item items where pool: "pool = item # items" by (cases pool) auto
  with assms obtain r where "max_loop item items = Inr r" "k = fst r"
    by (auto simp: and_then_eq_Inr)
  with max_loop_member [of item items r] pool show ?thesis by auto
qed

lemma top_key_first_greatest:
  assumes "pool \<noteq> []" and "\<forall>item \<in> set pool. \<exists>c. snd item = JInt c"
  shows "\<exists>pre k c post. pool = pre @ (k, JInt c) # post \<and> top_key pool = Inr k \<and>
           (\<forall>x \<in> set pre. count_int (snd x) < c) \<and>
           (\<forall>x \<in> set post. count_int (snd x) \<le> c)"
proof -
  from assms obtain item items where pool: "pool = item # items" by (cases pool) auto
  with assms(2) have "\<forall>x \<in> set (item # items). \<exists>c. snd x = JInt c" by simp
  from max_loop_first_greatest [OF this] obtain pre r post where
    split: "item # items = pre @ r # post" and r: "max_loop item items = Inr r"
    and pre: "\<forall>x \<in> set pre. count_int (snd x) < count_int (snd r)"
    and post: "\<forall>x \<in> set post. count_int (snd x) \<le> count_int (snd r)"
    by blast
  from split pool assms(2) obtain c where c: "snd r = JInt c" by auto
  then have "r = (fst r, JInt c)" by (cases r) simp
  with split pool have "pool = pre @ (fst r, JInt c) # post" by simp
  moreover from r pool have "top_key pool = Inr (fst r)" by simp
  ultimately show ?thesis using pre post c by (metis count_int.simps(1))
qed


lemma NA_neq [simp]: "NA \<noteq> JInt i" "NA \<noteq> JNull" "JInt i \<noteq> NA" "JNull \<noteq> NA"
  by (simp_all add: NA_def)

lemma NA_eq_JStr: "NA = JStr s \<longleftrightarrow> s = lit ''N/A''" "JStr s = NA \<longleftrightarrow> s = lit ''N/A''"
  by (auto simp: NA_def)

lemma only_na_statistics:
  "calculate_statistics decimal_int (JInt 5) only_na_example (JInt 7) =
     Inr [(lit ''total_incidents'', Json (JInt 5)),
          (lit ''daily_average'', Float (PyFloat False 6305039478318694 (- 53))),
          (lit ''critical_count'', Json (JInt 0)),
          (lit ''top_country'', Json NA),
          (lit ''top_incident_type'', Json NA),
          (lit ''top_srcip'', Json NA),
          (lit ''top_srcip_count'', Json (JInt 0))]"
  by code_simp

lemma regions_example_top: "top_key (no_na regions_example) = Inr (JStr (lit ''Czechia''))"
  by (simp add: regions_example_def no_na_def NA_def lit_eq_iff)

lemma filter_split:
  "filter P d = pre' @ x # post' \<Longrightarrow>
     \<exists>pre post. d = pre @ x # post \<and> filter P pre = pre' \<and> filter P post = post'"
proof (induction d arbitrary: pre')
  case Nil
  then show ?case by simp
next
  case (Cons a d)
  show ?case
  proof (cases "P a")
    case True
    show ?thesis
    proof (cases pre')
      case Nil
      with Cons.prems True have "a = x" "filter P d = post'" by simp_all
      then have "a # d = [] @ x # d \<and> filter P [] = [] \<and> filter P d = post'" by simp
      with Nil show ?thesis by blast
    next
      case (Cons b ps)
      with Cons.prems True have ab: "a = b" and rest: "filter P d = ps @ x # post'" by simp_all
      from Cons.IH [OF rest] obtain pre post where
        "d = pre @ x # post" "filter P pre = ps" "filter P post = post'" by blast
      with ab True Cons have "a # d = (a # pre) @ x # post \<and> filter P (a # pre) = pre' \<and>
          filter P post = post'" by simp
      then show ?thesis by blast
    qed
  next
    case False
    with Cons.prems have rest: "filter P d = pre' @ x # post'" by simp
    from Cons.IH [OF rest] obtain pre post where
      "d = pre @ x # post" "filter P pre = pre'" "filter P post = post'" by blast
    with False have "a # d = (a # pre) @ x # post \<and> filter P (a # pre) = pre' \<and>
          filter P post = post'" by simp
    then show ?thesis by blast
  qed
qed

lemma top_key_first_in_mapping:
  assumes "\<exists>item \<in> set d. fst item \<noteq> NA"
    and "\<forall>item \<in> set d. fst item \<noteq> NA \<longrightarrow> (\<exists>c. snd item = JInt c)"
  shows "\<exists>pre k c post. d = pre @ (k, JInt c) # post \<and> top_key (no_na d) = Inr k \<and> k \<noteq> NA \<and>
           (\<forall>x \<in> set pre. fst x \<noteq> NA \<longrightarrow> count_int (snd x) < c) \<and>
           (\<forall>x \<in> set post. fst x \<noteq> NA \<longrightarrow> count_int (snd x) \<le> c)"
proof -
  from assms(1) have ne: "no_na d \<noteq> []" by (auto simp: no_na_def filter_empty_conv)
  from assms(2) have ints: "\<forall>item \<in> set (no_na d). \<exists>c. snd item = JInt c"
    by (simp add: no_na_set)
  from top_key_first_greatest [OF ne ints] obtain pre' k c post' where
    split: "no_na d = pre' @ (k, JInt c) # post'" and k: "top_key (no_na d) = Inr k"
    and pre': "\<forall>x \<in> set pre'. count_int (snd x) < c"
    and post': "\<forall>x \<in> set post'. count_int (snd x) \<le> c"
    by blast
  from split have "(k, JInt c) \<in> set (no_na d)" by simp
  then have kna: "k \<noteq> NA" by (simp add: no_na_set)
  from split have "filter (\<lambda>item. fst item \<noteq> NA) d = pre' @ (k, JInt c) # post'"
    by (simp add: no_na_def)
  from filter_split [OF this] obtain pre post where d: "d = pre @ (k, JInt c) # post"
    and fpre: "filter (\<lambda>item. fst item \<noteq> NA) pre = pre'"
    and fpost: "filter (\<lambda>item. fst item \<noteq> NA) post = post'"
    by blast
  from pre' fpre have "\<forall>x \<in> set pre. fst x \<noteq> NA \<longrightarrow> count_int (snd x) < c" by auto
  moreover from post' fpost have "\<forall>x \<in> set post. fst x \<noteq> NA \<longrightarrow> count_int (snd x) \<le> c"
    by auto
  ultimately show ?thesis using d k kna by blast
qed

subsection \<open>Division and rounding return within the float range\<close>

lemma pow2_ratio: "(2::real) ^ nat x / 2 ^ nat (- x) = 2 powi x"
proof (cases "0 \<le> x")
  case True
  then show ?thesis by (simp add: power_int_nonneg_exp)
next
  case False
  then have "2 powi x = 1 / (2::real) powi (- x)" 
    by (metis minus_minus power_int_minus_divide)
  with False show ?thesis by (simp add: power_int_nonneg_exp)
qed

lemma cross_less_iff:
  assumes "0 < d"
  shows "n * 2 ^ nat (- x) < d * 2 ^ nat x \<longleftrightarrow> real_of_int n / real_of_int d < 2 powi x"
proof -
  have "n * 2 ^ nat (- x) < d * 2 ^ nat x
        \<longleftrightarrow> real_of_int (n * 2 ^ nat (- x)) < real_of_int (d * 2 ^ nat x)"
    by linarith
  also have "\<dots> \<longleftrightarrow> real_of_int n * 2 ^ nat (- x) < real_of_int d * 2 ^ nat x"
    by simp
  also have "\<dots> \<longleftrightarrow> real_of_int n / real_of_int d < 2 ^ nat x / 2 ^ nat (- x)"
    using assms by (simp add: field_simps)
  finally show ?thesis by (simp add: pow2_ratio)
qed

lemma bitlen_powi:
  assumes "0 < x"
  shows "2 powi (bitlen x - 1) \<le> real_of_int x" and "real_of_int x < 2 powi (bitlen x)"
    and "1 \<le> bitlen x"
proof -
  from bitlen_bounds [OF assms] have lo: "2 ^ nat (bitlen x - 1) \<le> x" and hi: "x < 2 ^ nat (bitlen x)"
    by simp_all
  show b1: "1 \<le> bitlen x"
  proof (rule ccontr)
    assume "\<not> 1 \<le> bitlen x"
    then have "nat (bitlen x) = 0" by simp
    with hi assms show False by simp
  qed
  from lo have "real_of_int (2 ^ nat (bitlen x - 1)) \<le> real_of_int x" by linarith
  with b1 show "2 powi (bitlen x - 1) \<le> real_of_int x" by (simp add: power_int_nonneg_exp)
  from hi have "real_of_int x < real_of_int (2 ^ nat (bitlen x))" by linarith
  with b1 show "real_of_int x < 2 powi (bitlen x)" by (simp add: power_int_nonneg_exp)
qed

lemma floor_log2_div_bounds:
  assumes "0 < n" and "0 < d"
  shows "2 powi (floor_log2_div n d) \<le> real_of_int n / real_of_int d"
    and "real_of_int n / real_of_int d < 2 powi (floor_log2_div n d + 1)"
proof -
  define E where "E = bitlen n - bitlen d"
  note bn = bitlen_powi [OF assms(1)] and bd = bitlen_powi [OF assms(2)]
  have dpos: "0 < real_of_int d" and npos: "0 < real_of_int n" using assms by simp_all
  have "2 powi (E - 1) = (2::real) powi (bitlen n - 1) / 2 powi (bitlen d)"
    by (simp add: E_def power_int_diff)
  also have "\<dots> \<le> real_of_int n / 2 powi (bitlen d)"
    using bn(1) by (simp add: divide_right_mono)
  also have "\<dots> < real_of_int n / real_of_int d"
    using bd(2) npos dpos by (simp add: divide_strict_left_mono)
  finally have lo: "2 powi (E - 1) < real_of_int n / real_of_int d" .
  have "real_of_int n / real_of_int d < 2 powi (bitlen n) / real_of_int d"
    using bn(2) dpos by (simp add: divide_strict_right_mono)
  also have "\<dots> \<le> 2 powi (bitlen n) / 2 powi (bitlen d - 1)"
    using bd(1) by (simp add: frac_le)
  also have "\<dots> = 2 powi (bitlen n - (bitlen d - 1))"
    by (rule power_int_diff [symmetric]) simp
  also have "\<dots> = 2 powi (E + 1)"
    by (rule arg_cong [where f = "power_int 2"]) (simp add: E_def)
  finally have hi: "real_of_int n / real_of_int d < 2 powi (E + 1)" .
  have fl: "floor_log2_div n d = (if real_of_int n / real_of_int d < 2 powi E then E - 1 else E)"
    using cross_less_iff [OF assms(2), of n E]
    by (simp add: floor_log2_div_def Let_def E_def)
  show "2 powi (floor_log2_div n d) \<le> real_of_int n / real_of_int d"
    using lo fl by (simp split: if_splits)
  show "real_of_int n / real_of_int d < 2 powi (floor_log2_div n d + 1)"
    using hi fl by (simp split: if_splits)
qed

lemma round_half_even_div_bounds:
  "n div d \<le> round_half_even_div n d" "round_half_even_div n d \<le> n div d + 1"
  by (simp_all add: round_half_even_div_def Let_def)

lemma div_less_pow:
  assumes "0 < D" and "real_of_int N / real_of_int D < 2 ^ k"
  shows "N div D < 2 ^ k"
proof (rule ccontr)
  assume "\<not> N div D < 2 ^ k"
  then have "2 ^ k \<le> N div D" by simp
  with assms(1) have "D * 2 ^ k \<le> D * (N div D)" by (simp add: mult_left_mono)
  also have "\<dots> \<le> N"
    using pos_mod_sign [OF assms(1), of N] mult_div_mod_eq [of D N] by linarith
  finally have "real_of_int (D * 2 ^ k) \<le> real_of_int N" by linarith
  with assms show False by (simp add: field_simps)
qed

lemma round_binary64_Some:
  assumes "0 < n" and "0 < d" and "real_of_int n / real_of_int d < 2 powi K" and "52 \<le> K" and "K \<le> 1023"
  shows "\<exists>m p. round_binary64 n d = Some (m, p) \<and> 0 \<le> m \<and> m < 2 ^ 53 \<and> p \<le> K - 52"
proof -
  define e where "e = floor_log2_div n d"
  define p where "p = max (e - 52) (- 1074)"
  define N where "N = n * 2 ^ nat (- p)"
  define D where "D = d * 2 ^ nat p"
  define m where "m = round_half_even_div N D"
  note fl = floor_log2_div_bounds [OF assms(1,2), folded e_def]
  from fl(1) assms(3) have "(2::real) powi e < 2 powi K" by simp
  have eK: "e < K"
  proof (rule ccontr)
    assume "\<not> e < K"
    then have "(2::real) powi K \<le> 2 powi e" by (intro power_int_increasing) simp_all
    with \<open>(2::real) powi e < 2 powi K\<close> show False by simp
  qed
  have Dpos: "0 < D" using assms(2) by (simp add: D_def)
  have Nnonneg: "0 \<le> N" using assms(1) by (simp add: N_def)
  have ratio: "real_of_int N / real_of_int D = real_of_int n / real_of_int d * 2 powi (- p)"
  proof -
    have "real_of_int N / real_of_int D
          = real_of_int n / real_of_int d * (2 ^ nat (- p) / 2 ^ nat (- (- p)))"
      by (simp add: N_def D_def)
    then show ?thesis by (simp only: pow2_ratio)
  qed
  have pos: "0 < (2::real) powi (- p)" by simp
  have "real_of_int n / real_of_int d * 2 powi (- p) < 2 powi (e + 1) * 2 powi (- p)"
    by (rule mult_strict_right_mono [OF fl(2) pos])
  also have "\<dots> = 2 powi (e + 1 - p)"
    by (simp add: power_int_add power_int_diff power_int_minus field_simps)
  also have "\<dots> \<le> 2 powi 53"
    by (rule power_int_increasing) (simp_all add: p_def)
  finally have "real_of_int N / real_of_int D < 2 ^ 53" using ratio by simp
  from div_less_pow [OF Dpos this] have "N div D < 2 ^ 53" .
  with round_half_even_div_bounds(2) [of N D] have m_le: "m \<le> 2 ^ 53" by (simp add: m_def)
  from Nnonneg Dpos have "0 \<le> N div D" by (simp add: pos_imp_zdiv_nonneg_iff)
  with round_half_even_div_bounds(1) [of N D] have m_ge: "0 \<le> m" by (simp add: m_def)
  from eK assms(4) have pK: "p \<le> K - 53" by (simp add: p_def)
  have rb: "round_binary64 n d =
      (if m = 0 then Some (0, 0)
       else if 971 < (if m = 2 ^ 53 then p + 1 else p) then None
       else Some (if m = 2 ^ 53 then 2 ^ 52 else m, if m = 2 ^ 53 then p + 1 else p))"
  proof -
    from assms(1) have n0: "n \<noteq> 0" by simp
    show ?thesis
      unfolding round_binary64_def Let_def m_def N_def D_def p_def e_def
      by (simp only: n0 if_False)
  qed
  show ?thesis
  proof (cases "m = 0")
    case True
    with rb assms(4) show ?thesis by simp
  next
    case False
    show ?thesis
    proof (cases "m = 2 ^ 53")
      case True
      with rb False pK assms(5) show ?thesis by simp
    next
      case ne: False
      with m_le have "m < 2 ^ 53" by simp
      with rb False ne pK assms(5) m_ge show ?thesis by simp
    qed
  qed
qed


lemma int_truediv_Inr:
  assumes "b \<noteq> 0" and "\<bar>a\<bar> < 2 ^ 1000"
  shows "\<exists>m p. int_truediv a b = Inr (PyFloat ((a < 0) \<noteq> (b < 0)) m p) \<and>
               0 \<le> m \<and> m < 2 ^ 53 \<and> p \<le> 948"
proof (cases "a = 0")
  case True
  with assms show ?thesis by (simp add: int_truediv_def round_binary64_def)
next
  case False
  then have apos: "0 < \<bar>a\<bar>" by simp
  from assms(1) have bpos: "0 < \<bar>b\<bar>" by simp
  then have "1 \<le> real_of_int \<bar>b\<bar>" by linarith
  then have "real_of_int \<bar>a\<bar> / real_of_int \<bar>b\<bar> \<le> real_of_int \<bar>a\<bar> / 1"
    by (intro divide_left_mono) simp_all
  then have "real_of_int \<bar>a\<bar> / real_of_int \<bar>b\<bar> \<le> real_of_int \<bar>a\<bar>"
    by simp
  also from assms(2) have "\<dots> < 2 ^ 1000"
    by (metis of_int_less_iff of_int_numeral of_int_power)
  finally have "real_of_int \<bar>a\<bar> / real_of_int \<bar>b\<bar> < 2 powi 1000" by simp
  from round_binary64_Some [OF apos bpos this] obtain m p
    where "round_binary64 \<bar>a\<bar> \<bar>b\<bar> = Some (m, p)" "0 \<le> m" "m < 2 ^ 53" "p \<le> 948"
    by auto
  with assms(1) show ?thesis by (simp add: int_truediv_def)
qed

lemma py_round1_Inr:
  assumes "0 \<le> m" and "m < 2 ^ 53" and "p \<le> 948"
  shows "\<exists>m' p'. py_round1 (PyFloat s m p) = Inr (PyFloat s m' p')"
proof -
  define t where "t = round_half_even_div (10 * m * 2 ^ nat p) (2 ^ nat (- p))"
  have rd: "py_round1 (PyFloat s m p) =
     (case round_binary64 t 10 of None \<Rightarrow> Inl OverflowError
      | Some (m', p') \<Rightarrow> Inr (PyFloat s m' p'))"
    by (simp add: py_round1_def t_def split: option.splits)
  have t_ge: "0 \<le> t"
  proof -
    have "0 \<le> (10 * m * 2 ^ nat p) div (2 ^ nat (- p))"
      using assms(1) by (simp add: pos_imp_zdiv_nonneg_iff)
    with round_half_even_div_bounds(1) [of "10 * m * 2 ^ nat p" "2 ^ nat (- p)"]
    show ?thesis by (simp add: t_def)
  qed
  have t_le: "t \<le> 10 * m * 2 ^ nat p + 1"
  proof -
    have "(10 * m * 2 ^ nat p) div (2 ^ nat (- p)) \<le> 10 * m * 2 ^ nat p"
    proof (cases "10 * m * 2 ^ nat p = 0")
      case True
      then show ?thesis by simp
    next
      case False
      with assms(1) have "0 < 10 * m * 2 ^ nat p" by (simp add: less_le)
      then show ?thesis by (rule int_div_le_self)
    qed
    with round_half_even_div_bounds(2) [of "10 * m * 2 ^ nat p" "2 ^ nat (- p)"]
    show ?thesis by (simp add: t_def)
  qed
  show ?thesis
  proof (cases "t = 0")
    case True
    with rd show ?thesis by (simp add: round_binary64_def)
  next
    case False
    with t_ge have tpos: "0 < t" by simp
    have "(2::int) ^ nat p \<le> 2 ^ 948"
      using assms(3) by (intro power_increasing) simp_all
    with assms(1,2) have "m * 2 ^ nat p \<le> 2 ^ 53 * 2 ^ 948"
      by (intro mult_mono) simp_all
    with t_le have "t \<le> 10 * (2 ^ 53 * 2 ^ 948) + 1" by simp
    then have "real_of_int t \<le> real_of_int (10 * (2 ^ 53 * 2 ^ 948) + 1)" by linarith
    then have "real_of_int t / real_of_int 10 < 2 powi 1023" by simp
    from round_binary64_Some [OF tpos _ this] obtain m' p'
      where "round_binary64 t 10 = Some (m', p')" by auto
    with rd show ?thesis by simp
  qed
qed


text \<open>
  Some values: \<^verbatim>\<open>round(7 / 20, 1)\<close> is \<open>0.3\<close> (the float \<open>0.35\<close> is below
  \<open>35/100\<close>), \<^verbatim>\<open>round(1 / 4, 1)\<close> is \<open>0.2\<close> and \<^verbatim>\<open>round(3 / 4, 1)\<close> is \<open>0.8\<close>
  (ties go to the even digit), \<^verbatim>\<open>round(0 / -7, 1)\<close> is \<open>-0.0\<close>; each
  result is the float nearest to its decimal.
\<close>

lemma round1_examples:
  "and_then (int_truediv 7 20) py_round1 = Inr (PyFloat False 5404319552844595 (- 54))"
  "and_then (int_truediv 1 4) py_round1 = Inr (PyFloat False 7205759403792794 (- 55))"
  "and_then (int_truediv 3 4) py_round1 = Inr (PyFloat False 7205759403792794 (- 53))"
  "and_then (int_truediv 0 (- 7)) py_round1 = Inr (PyFloat True 0 0)"
  by code_simp+

lemma round1_example_values:
  "float_value (PyFloat False 5404319552844595 (- 54)) = 3 / 10 - 1 / (5 * 2 ^ 54)"
  "float_value (PyFloat False 7205759403792794 (- 55)) = 2 / 10 + 1 / (5 * 2 ^ 54)"
  "float_value (PyFloat False 7205759403792794 (- 53)) = 8 / 10 + 1 / (5 * 2 ^ 52)"
  by (simp_all add: float_value_def)

subsection \<open>When the calculator returns\<close>

lemma not_isl_iff: "\<not> isl r \<longleftrightarrow> (\<exists>x. r = Inr x)"
  by (cases r) simp_all

lemma calculate_statistics_returns:
  assumes "aggregates_ok ios p" and "py_truediv hits days = Inr q" and "py_round1 q = Inr avg"
  shows "\<exists>st. calculate_statistics ios hits p days = Inr st \<and>
              map_of st (lit ''total_incidents'') = Some (Json hits) \<and>
              map_of st (lit ''daily_average'') = Some (Float avg)"
proof -
  from assms(1) obtain c tc tt ts where "critical_loop ios (severity p) 0 = Inr c"
    "top_key (no_na (regions p)) = Inr tc" "top_key (no_na (types p)) = Inr tt"
    "top_key (no_na (srcips p)) = Inr ts"
    unfolding aggregates_ok_def not_isl_iff by blast
  with assms(2,3) show ?thesis
    by (simp add: calculate_statistics_def Let_def lit_eq_iff)
qed

lemma calculate_statistics_zero_days:
  "\<exists>e. calculate_statistics ios (JInt hits) p (JInt 0) = Inl e"
proof (cases "calculate_statistics ios (JInt hits) p (JInt 0)")
  case (Inr st)
  then obtain q where "py_truediv (JInt hits) (JInt 0) = Inr q"
    by (rule calculate_statistics_Inr)
  then show ?thesis by (simp add: int_truediv_def)
qed blast

lemma calculate_statistics_zero_division:
  assumes "aggregates_ok ios p"
  shows "calculate_statistics ios (JInt hits) p (JInt 0) = Inl ZeroDivisionError"
proof -
  from assms obtain c tc tt ts where "critical_loop ios (severity p) 0 = Inr c"
    "top_key (no_na (regions p)) = Inr tc" "top_key (no_na (types p)) = Inr tt"
    "top_key (no_na (srcips p)) = Inr ts"
    unfolding aggregates_ok_def not_isl_iff by blast
  then show ?thesis
    by (simp add: calculate_statistics_def Let_def int_truediv_def)
qed

lemma negative_days_statistics:
  "calculate_statistics decimal_int (JInt 70) empty_aggs (JInt (- 7)) =
     Inr [(lit ''total_incidents'', Json (JInt 70)),
          (lit ''daily_average'', Float (PyFloat True 5629499534213120 (- 49))),
          (lit ''critical_count'', Json (JInt 0)),
          (lit ''top_country'', Json NA),
          (lit ''top_incident_type'', Json NA),
          (lit ''top_srcip'', Json NA),
          (lit ''top_srcip_count'', Json (JInt 0))]"
  by code_simp

lemma empty_aggs_ok: "aggregates_ok ios empty_aggs"
  by (simp add: aggregates_ok_def empty_aggs_def no_na_def)

text \<open>
  Beyond the float range the division raises: \<open>2^1024 / 1\<close> is an
  \<^verbatim>\<open>OverflowError\<close>. Aggregations are in order when every severity key
  parses, the counts of the levels above 9 are integers, and so are the counts
  of the regions, types and source addresses.
\<close>

lemma huge_total_overflows:
  "calculate_statistics ios (JInt (2 ^ 1024)) empty_aggs (JInt 1) = Inl OverflowError"
proof -
  have "int_truediv (2 ^ 1024) 1 = Inl OverflowError" by code_simp
  then show ?thesis
    by (simp only: calculate_statistics_def empty_aggs_def no_na_def Let_def
        parsed_aggs.simps critical_loop.simps filter.simps top_key.simps
        and_then_Inr and_then_Inl py_truediv.simps)
qed

lemma well_formed_aggregates_ok:
  assumes "\<forall>item \<in> set (severity p). key_int ios (fst item) \<noteq> None \<and>
             (is_critical ios item \<longrightarrow> (\<exists>c. snd item = JInt c))"
    and "\<forall>item \<in> set (regions p) \<union> set (types p) \<union> set (srcips p). \<exists>c. snd item = JInt c"
  shows "aggregates_ok ios p"
proof -
  have top: "\<exists>k. top_key (no_na d) = Inr k" if "\<forall>item \<in> set d. \<exists>c. snd item = JInt c" for d
  proof (cases "no_na d = []")
    case True
    then show ?thesis by simp
  next
    case False
    from that have "\<forall>item \<in> set (no_na d). \<exists>c. snd item = JInt c" by (simp add: no_na_set)
    from top_key_first_greatest [OF False this] show ?thesis by blast
  qed
  from assms(1) have "critical_loop ios (severity p) 0 = Inr (0 + spec_critical_count ios (severity p))"
    by (rule critical_loop_total)
  moreover from assms(2) top [of "regions p"] top [of "types p"] top [of "srcips p"]
  have "\<exists>k. top_key (no_na (regions p)) = Inr k" "\<exists>k. top_key (no_na (types p)) = Inr k"
    "\<exists>k. top_key (no_na (srcips p)) = Inr k"
    by blast+
  ultimately show ?thesis by (auto simp: aggregates_ok_def)
qed

lemma calculate_statistics_nonzero_days:
  assumes "aggregates_ok ios p" and "days \<noteq> 0" and "\<bar>hits\<bar> < 2 ^ 1000"
  obtains c tc tt ts q avg where
    "critical_loop ios (severity p) 0 = Inr c"
    "top_key (no_na (regions p)) = Inr tc"
    "top_key (no_na (types p)) = Inr tt"
    "top_key (no_na (srcips p)) = Inr ts"
    "int_truediv hits days = Inr q"
    "py_round1 q = Inr avg"
    "calculate_statistics ios (JInt hits) p (JInt days) =
       Inr [(lit ''total_incidents'', Json (JInt hits)),
            (lit ''daily_average'', Float avg),
            (lit ''critical_count'', Json (JInt c)),
            (lit ''top_country'', Json tc),
            (lit ''top_incident_type'', Json tt),
            (lit ''top_srcip'', Json ts),
            (lit ''top_srcip_count'',
               Json (if ts \<noteq> NA
                     then (case map_of (no_na (srcips p)) ts of None \<Rightarrow> JInt 0 | Some c \<Rightarrow> c)
                     else JInt 0))]"
proof -
  from assms(1) obtain c tc tt ts where parts: "critical_loop ios (severity p) 0 = Inr c"
    "top_key (no_na (regions p)) = Inr tc" "top_key (no_na (types p)) = Inr tt"
    "top_key (no_na (srcips p)) = Inr ts"
    unfolding aggregates_ok_def not_isl_iff by blast
  from assms(2,3) obtain m e
    where q: "int_truediv hits days = Inr (PyFloat ((hits < 0) \<noteq> (days < 0)) m e)"
      and "0 \<le> m" "m < 2 ^ 53" "e \<le> 948"
    using int_truediv_Inr [of days hits] by blast
  from py_round1_Inr [OF this(2,3,4)] obtain avg
    where avg: "py_round1 (PyFloat ((hits < 0) \<noteq> (days < 0)) m e) = Inr avg"
    by blast
  from parts q avg have "calculate_statistics ios (JInt hits) p (JInt days) =
       Inr [(lit ''total_incidents'', Json (JInt hits)),
            (lit ''daily_average'', Float avg),
            (lit ''critical_count'', Json (JInt c)),
            (lit ''top_country'', Json tc),
            (lit ''top_incident_type'', Json tt),
            (lit ''top_srcip'', Json ts),
            (lit ''top_srcip_count'',
               Json (if ts \<noteq> NA
                     then (case map_of (no_na (srcips p)) ts of None \<Rightarrow> JInt 0 | Some c \<Rightarrow> c)
                     else JInt 0))]"
    by (simp add: calculate_statistics_def Let_def)
  with parts q avg show ?thesis by (rule that)
qed

lemma same_levels_statistics:
  assumes "list_all2 (\<lambda>a b. key_int ios (fst a) = key_int ios (fst b) \<and>
                            key_int ios (fst a) \<noteq> None \<and> snd a = snd b) sev sev'"
  shows "calculate_statistics ios tot (p\<lparr>severity := sev\<rparr>) dys =
         calculate_statistics ios tot (p\<lparr>severity := sev'\<rparr>) dys"
  using critical_loop_same_levels [OF assms, of 0]
  by (simp add: calculate_statistics_def)

lemma well_formed_critical_count:
  assumes sev: "\<forall>item \<in> set (severity p). key_int ios (fst item) \<noteq> None \<and>
             (is_critical ios item \<longrightarrow> (\<exists>c. snd item = JInt c))"
    and rest: "\<forall>item \<in> set (regions p) \<union> set (types p) \<union> set (srcips p). \<exists>c. snd item = JInt c"
    and "days \<noteq> 0" and "\<bar>hits\<bar> < 2 ^ 1000"
  shows "\<exists>st. calculate_statistics ios (JInt hits) p (JInt days) = Inr st \<and>
           map_of st (lit ''critical_count'') =
             Some (Json (JInt (spec_critical_count ios (severity p))))"
proof -
  from well_formed_aggregates_ok [OF sev rest] have ok: "aggregates_ok ios p" .
  from sev have c: "critical_loop ios (severity p) 0 = Inr (0 + spec_critical_count ios (severity p))"
    by (rule critical_loop_total)
  show ?thesis
  proof (rule calculate_statistics_nonzero_days [OF ok assms(3,4)])
    fix c' tc tt ts avg
    assume c': "critical_loop ios (severity p) 0 = Inr c'"
      and st: "calculate_statistics ios (JInt hits) p (JInt days) =
       Inr [(lit ''total_incidents'', Json (JInt hits)),
            (lit ''daily_average'', Float avg),
            (lit ''critical_count'', Json (JInt c')),
            (lit ''top_country'', Json tc),
            (lit ''top_incident_type'', Json tt),
            (lit ''top_srcip'', Json ts),
            (lit ''top_srcip_count'',
               Json (if ts \<noteq> NA
                     then (case map_of (no_na (srcips p)) ts of None \<Rightarrow> JInt 0 | Some c \<Rightarrow> c)
                     else JInt 0))]"
    from c c' have "c' = spec_critical_count ios (severity p)" by simp
    with st show ?thesis by (simp add: lit_eq_iff)
  qed
qed

lemma well_formed_top_keys:
  assumes ok: "aggregates_ok ios p" and "days \<noteq> 0" and "\<bar>hits\<bar> < 2 ^ 1000"
  shows "\<exists>st tc tt ts. calculate_statistics ios (JInt hits) p (JInt days) = Inr st \<and>
           top_key (no_na (regions p)) = Inr tc \<and>
           top_key (no_na (types p)) = Inr tt \<and>
           top_key (no_na (srcips p)) = Inr ts \<and>
           map_of st (lit ''top_country'') = Some (Json tc) \<and>
           map_of st (lit ''top_incident_type'') = Some (Json tt) \<and>
           map_of st (lit ''top_srcip'') = Some (Json ts) \<and>
           map fst st = statistics_keys"
proof (rule calculate_statistics_nonzero_days [OF assms])
  fix c tc tt ts avg
  assume tops: "top_key (no_na (regions p)) = Inr tc" "top_key (no_na (types p)) = Inr tt"
      "top_key (no_na (srcips p)) = Inr ts"
    and st: "calculate_statistics ios (JInt hits) p (JInt days) =
       Inr [(lit ''total_incidents'', Json (JInt hits)),
            (lit ''daily_average'', Float avg),
            (lit ''critical_count'', Json (JInt c)),
            (lit ''top_country'', Json tc),
            (lit ''top_incident_type'', Json tt),
            (lit ''top_srcip'', Json ts),
            (lit ''top_srcip_count'',
               Json (if ts \<noteq> NA
                     then (case map_of (no_na (srcips p)) ts of None \<Rightarrow> JInt 0 | Some c \<Rightarrow> c)
                     else JInt 0))]"
  show ?thesis
    apply (rule exI, rule exI [of _ tc], rule exI [of _ tt], rule exI [of _ ts])
    apply (rule conjI [OF st])
    apply (simp add: tops lit_eq_iff statistics_keys_def)
    done
qed

subsection \<open>The critical count\<close>

text \<open>
  Claim C1. When every severity key parses to an integer, the counts of the
  levels above 9 are integers, the other counts are integers and the division
  is defined, \<open>calculate_statistics\<close> returns, and its \<^verbatim>\<open>critical_count\<close> is
  the sum of the counts of the severity keys that parse to an integer above 9.
  Whenever it returns, \<^verbatim>\<open>critical_count\<close> is that sum and every severity key
  parses; a severity mapping with a key that does not parse makes it raise; and
  two severity mappings with the same counts whose keys parse to the same
  integers (\<^verbatim>\<open>"10"\<close> and \<^verbatim>\<open>10\<close>) give the same result.
\<close>

theorem critical_count_sums_levels_above_9:
  "((\<forall>item \<in> set (severity p). key_int ios (fst item) \<noteq> None \<and>
        (is_critical ios item \<longrightarrow> (\<exists>c. snd item = JInt c))) \<and>
    (\<forall>item \<in> set (regions p) \<union> set (types p) \<union> set (srcips p). \<exists>c. snd item = JInt c) \<and>
    n \<noteq> 0 \<and> \<bar>h\<bar> < 2 ^ 1000 \<longrightarrow>
      (\<exists>st'. calculate_statistics ios (JInt h) p (JInt n) = Inr st' \<and>
         map_of st' (lit ''critical_count'') =
           Some (Json (JInt (spec_critical_count ios (severity p)))))) \<and>
   (calculate_statistics ios hits p days = Inr st \<longrightarrow>
      map_of st (lit ''critical_count'') = Some (Json (JInt (spec_critical_count ios (severity p)))) \<and>
      (\<forall>item \<in> set (severity p). key_int ios (fst item) \<noteq> None)) \<and>
   ((\<exists>item \<in> set (severity p). key_int ios (fst item) = None) \<longrightarrow>
      (\<exists>e. calculate_statistics ios hits p days = Inl e)) \<and>
   ((\<forall>item \<in> set sev. key_int ios (fst item) \<noteq> None \<and>
        (is_critical ios item \<longrightarrow> (\<exists>c. snd item = JInt c))) \<longrightarrow>
      critical_loop ios sev 0 = Inr (spec_critical_count ios sev)) \<and>
   (list_all2 (\<lambda>a b. key_int ios (fst a) = key_int ios (fst b) \<and>
                      key_int ios (fst a) \<noteq> None \<and> snd a = snd b) sev sev' \<longrightarrow>
      critical_loop ios sev 0 = critical_loop ios sev' 0 \<and>
      calculate_statistics ios hits (p\<lparr>severity := sev\<rparr>) days =
        calculate_statistics ios hits (p\<lparr>severity := sev'\<rparr>) days)"
proof (intro conjI impI)
  assume a: "(\<forall>item \<in> set (severity p). key_int ios (fst item) \<noteq> None \<and>
        (is_critical ios item \<longrightarrow> (\<exists>c. snd item = JInt c))) \<and>
    (\<forall>item \<in> set (regions p) \<union> set (types p) \<union> set (srcips p). \<exists>c. snd item = JInt c) \<and>
    n \<noteq> 0 \<and> \<bar>h\<bar> < 2 ^ 1000"
  then have sev: "\<forall>item \<in> set (severity p). key_int ios (fst item) \<noteq> None \<and>
        (is_critical ios item \<longrightarrow> (\<exists>c. snd item = JInt c))"
    and rest: "\<forall>item \<in> set (regions p) \<union> set (types p) \<union> set (srcips p). \<exists>c. snd item = JInt c"
    and n: "n \<noteq> 0" and h: "\<bar>h\<bar> < 2 ^ 1000"
    by blast+
  from sev rest n h
  show "\<exists>st'. calculate_statistics ios (JInt h) p (JInt n) = Inr st' \<and>
         map_of st' (lit ''critical_count'') =
           Some (Json (JInt (spec_critical_count ios (severity p))))"
    by (rule well_formed_critical_count)
next
  assume r: "calculate_statistics ios hits p days = Inr st"
  then obtain c tc tt ts q avg where c: "critical_loop ios (severity p) 0 = Inr c"
    and st: "st = [(lit ''total_incidents'', Json hits),
           (lit ''daily_average'', Float avg),
           (lit ''critical_count'', Json (JInt c)),
           (lit ''top_country'', Json tc),
           (lit ''top_incident_type'', Json tt),
           (lit ''top_srcip'', Json ts),
           (lit ''top_srcip_count'',
              Json (if ts \<noteq> NA
                    then (case map_of (no_na (srcips p)) ts of None \<Rightarrow> JInt 0 | Some c \<Rightarrow> c)
                    else JInt 0))]"
    by (rule calculate_statistics_Inr)
  from critical_loop_Inr [OF c] st
  show "map_of st (lit ''critical_count'') = Some (Json (JInt (spec_critical_count ios (severity p))))"
    by (simp add: lit_eq_iff)
  from critical_loop_Inr [OF c]
  show "\<forall>item \<in> set (severity p). key_int ios (fst item) \<noteq> None" by simp
next
  assume "\<exists>item \<in> set (severity p). key_int ios (fst item) = None"
  then obtain e where "critical_loop ios (severity p) 0 = Inl e"
    using critical_loop_non_numeric by blast
  then show "\<exists>e. calculate_statistics ios hits p days = Inl e"
    using calculate_statistics_critical_Inl by blast
next
  assume "\<forall>item \<in> set sev. key_int ios (fst item) \<noteq> None \<and>
        (is_critical ios item \<longrightarrow> (\<exists>c. snd item = JInt c))"
  then show "critical_loop ios sev 0 = Inr (spec_critical_count ios sev)"
    using critical_loop_total [of sev ios 0] by simp
next
  assume "list_all2 (\<lambda>a b. key_int ios (fst a) = key_int ios (fst b) \<and>
                      key_int ios (fst a) \<noteq> None \<and> snd a = snd b) sev sev'"
  then show "critical_loop ios sev 0 = critical_loop ios sev' 0"
    by (rule critical_loop_same_levels)
next
  assume "list_all2 (\<lambda>a b. key_int ios (fst a) = key_int ios (fst b) \<and>
                      key_int ios (fst a) \<noteq> None \<and> snd a = snd b) sev sev'"
  then show "calculate_statistics ios hits (p\<lparr>severity := sev\<rparr>) days =
        calculate_statistics ios hits (p\<lparr>severity := sev'\<rparr>) days"
    by (rule same_levels_statistics)
qed

lemma non_numeric_level_raises: "calculate_statistics decimal_int (JInt 70)
     (empty_aggs\<lparr>severity := [(JStr (lit ''high''), JInt 3)]\<rparr>) (JInt 7) = Inl ValueError"
  by code_simp

theorem critical_count_sums_levels_above_9_witness:
  "(\<exists>st. calculate_statistics decimal_int (JInt 70) severity_example (JInt 7) = Inr st \<and>
      map_of st (lit ''critical_count'') = Some (Json (JInt 3))) \<and>
   spec_critical_count decimal_int [(JStr (lit ''10''), JInt 3), (JInt 7, JInt 5)] = 3 \<and>
   (\<exists>e. calculate_statistics decimal_int (JInt 70)
     (empty_aggs\<lparr>severity := [(JStr (lit ''high''), JInt 3)]\<rparr>) (JInt 7) = Inl e) \<and>
   critical_loop decimal_int [(JStr (lit ''10''), JInt 3), (JInt 7, JInt 5)] 0 = Inr 3 \<and>
   calculate_statistics decimal_int (JInt 70)
     (empty_aggs\<lparr>severity := [(JStr (lit ''10''), JInt 3), (JInt 7, JInt 5)]\<rparr>) (JInt 7) =
   calculate_statistics decimal_int (JInt 70)
     (empty_aggs\<lparr>severity := [(JInt 10, JInt 3), (JInt 7, JInt 5)]\<rparr>) (JInt 7)"
proof -
  have d10: "decimal_int (lit ''10'') = Some 10" by code_simp
  have dh: "decimal_int (lit ''high'') = None" by code_simp
  have sp: "spec_critical_count decimal_int [(JStr (lit ''10''), JInt 3), (JInt 7, JInt 5)] = 3"
    by (simp add: spec_critical_count_def is_critical_def d10)
  have sev: "severity severity_example = [(JStr (lit ''10''), JInt 3), (JInt 7, JInt 5)]"
    "regions severity_example = []" "types severity_example = []" "srcips severity_example = []"
    by (simp_all add: severity_example_def empty_aggs_def)
  note main = critical_count_sums_levels_above_9
  have pre: "(\<forall>item \<in> set (severity severity_example).
        key_int decimal_int (fst item) \<noteq> None \<and>
        (is_critical decimal_int item \<longrightarrow> (\<exists>c. snd item = JInt c))) \<and>
    (\<forall>item \<in> set (regions severity_example) \<union> set (types severity_example) \<union>
        set (srcips severity_example). \<exists>c. snd item = JInt c) \<and>
    (7 :: int) \<noteq> 0 \<and> \<bar>70 :: int\<bar> < 2 ^ 1000"
    by (simp add: sev d10)
  from conjunct1 [OF main [where ios = decimal_int and p = severity_example and n = 7 and h = 70]]
    pre sev(1) sp
  have a: "\<exists>st. calculate_statistics decimal_int (JInt 70) severity_example (JInt 7) = Inr st \<and>
      map_of st (lit ''critical_count'') = Some (Json (JInt 3))"
    by simp
  from conjunct1 [OF conjunct2 [OF conjunct2 [OF main [where ios = decimal_int
      and hits = "JInt 70" and p = "empty_aggs\<lparr>severity := [(JStr (lit ''high''), JInt 3)]\<rparr>"
      and days = "JInt 7"]]]] dh
  have b: "\<exists>e. calculate_statistics decimal_int (JInt 70)
     (empty_aggs\<lparr>severity := [(JStr (lit ''high''), JInt 3)]\<rparr>) (JInt 7) = Inl e"
    by simp
  from conjunct1 [OF conjunct2 [OF conjunct2 [OF conjunct2 [OF main [where ios = decimal_int
      and sev = "[(JStr (lit ''10''), JInt 3), (JInt 7, JInt 5)]"]]]]] d10 sp
  have c: "critical_loop decimal_int [(JStr (lit ''10''), JInt 3), (JInt 7, JInt 5)] 0 = Inr 3"
    by (simp add: is_critical_def)
  from conjunct2 [OF conjunct2 [OF conjunct2 [OF conjunct2 [OF main [where ios = decimal_int
      and sev = "[(JStr (lit ''10''), JInt 3), (JInt 7, JInt 5)]"
      and sev' = "[(JInt 10, JInt 3), (JInt 7, JInt 5)]"
      and hits = "JInt 70" and p = empty_aggs and days = "JInt 7"]]]]] d10
  have d: "calculate_statistics decimal_int (JInt 70)
     (empty_aggs\<lparr>severity := [(JStr (lit ''10''), JInt 3), (JInt 7, JInt 5)]\<rparr>) (JInt 7) =
   calculate_statistics decimal_int (JInt 70)
     (empty_aggs\<lparr>severity := [(JInt 10, JInt 3), (JInt 7, JInt 5)]\<rparr>) (JInt 7)"
    by simp
  from a sp b c d show ?thesis by (intro conjI)
qed

subsection \<open>The top-ranked keys\<close>

text \<open>
  Claim C2, as amended. For each of \<^verbatim>\<open>regions\<close>, \<^verbatim>\<open>types\<close> and \<^verbatim>\<open>srcips\<close> the
  candidate pool is the mapping without the key \<^verbatim>\<open>"N/A"\<close>. A mapping with no
  other key gives \<^verbatim>\<open>"N/A"\<close>. A mapping with other keys, whose counts are
  integers, gives the key of one of its items: a key other than \<^verbatim>\<open>"N/A"\<close>,
  whose count none of the other candidates exceeds and none of the candidates
  before it in the mapping reaches. Where the aggregations are in order and the
  division is defined the calculator returns, and its statistics carry these
  three keys and one count, \<^verbatim>\<open>top_srcip_count\<close>: 0 for an empty pool of source
  addresses, the count of \<^verbatim>\<open>top_srcip\<close> otherwise. There is no count for the
  top country or the top incident type.
\<close>

theorem top_key_excludes_sentinel:
  "set (no_na d) = {item \<in> set d. fst item \<noteq> NA} \<and>
   (no_na d = [] \<longrightarrow> top_key (no_na d) = Inr NA) \<and>
   ((\<forall>item \<in> set d. fst item = NA) \<longrightarrow> top_key (no_na d) = Inr NA) \<and>
   (no_na d \<noteq> [] \<and> (\<forall>item \<in> set (no_na d). \<exists>c. snd item = JInt c) \<longrightarrow>
      (\<exists>pre k c post. no_na d = pre @ (k, JInt c) # post \<and> top_key (no_na d) = Inr k \<and> k \<noteq> NA \<and>
         (\<forall>x \<in> set pre. count_int (snd x) < c) \<and>
         (\<forall>x \<in> set post. count_int (snd x) \<le> c))) \<and>
   ((\<exists>item \<in> set d. fst item \<noteq> NA) \<and>
    (\<forall>item \<in> set d. fst item \<noteq> NA \<longrightarrow> (\<exists>c. snd item = JInt c)) \<longrightarrow>
      (\<exists>pre k c post. d = pre @ (k, JInt c) # post \<and> top_key (no_na d) = Inr k \<and> k \<noteq> NA \<and>
         (\<forall>x \<in> set pre. fst x \<noteq> NA \<longrightarrow> count_int (snd x) < c) \<and>
         (\<forall>x \<in> set post. fst x \<noteq> NA \<longrightarrow> count_int (snd x) \<le> c))) \<and>
   (calculate_statistics ios hits p days = Inr st \<longrightarrow>
      (\<exists>tc tt ts.
         top_key (no_na (regions p)) = Inr tc \<and>
         top_key (no_na (types p)) = Inr tt \<and>
         top_key (no_na (srcips p)) = Inr ts \<and>
         map_of st (lit ''top_country'') = Some (Json tc) \<and>
         map_of st (lit ''top_incident_type'') = Some (Json tt) \<and>
         map_of st (lit ''top_srcip'') = Some (Json ts) \<and>
         (no_na (srcips p) = [] \<longrightarrow> map_of st (lit ''top_srcip_count'') = Some (Json (JInt 0))) \<and>
         (no_na (srcips p) \<noteq> [] \<longrightarrow>
            (\<exists>c. map_of (no_na (srcips p)) ts = Some c \<and>
                 map_of st (lit ''top_srcip_count'') = Some (Json c))) \<and>
         map fst st = statistics_keys)) \<and>
   ((\<forall>item \<in> set (severity p). key_int ios (fst item) \<noteq> None \<and>
        (is_critical ios item \<longrightarrow> (\<exists>c. snd item = JInt c))) \<and>
    (\<forall>item \<in> set (regions p) \<union> set (types p) \<union> set (srcips p). \<exists>c. snd item = JInt c) \<and>
    n \<noteq> 0 \<and> \<bar>h\<bar> < 2 ^ 1000 \<longrightarrow>
      (\<exists>st' tc tt ts. calculate_statistics ios (JInt h) p (JInt n) = Inr st' \<and>
         top_key (no_na (regions p)) = Inr tc \<and>
         top_key (no_na (types p)) = Inr tt \<and>
         top_key (no_na (srcips p)) = Inr ts \<and>
         map_of st' (lit ''top_country'') = Some (Json tc) \<and>
         map_of st' (lit ''top_incident_type'') = Some (Json tt) \<and>
         map_of st' (lit ''top_srcip'') = Some (Json ts) \<and>
         map fst st' = statistics_keys))"
proof (intro conjI impI)
  show "set (no_na d) = {item \<in> set d. fst item \<noteq> NA}" by (rule no_na_set)
next
  assume "no_na d = []"
  then show "top_key (no_na d) = Inr NA" by simp
next
  assume "\<forall>item \<in> set d. fst item = NA"
  then have "no_na d = []" by (simp add: no_na_def filter_empty_conv)
  then show "top_key (no_na d) = Inr NA" by simp
next
  assume a: "no_na d \<noteq> [] \<and> (\<forall>item \<in> set (no_na d). \<exists>c. snd item = JInt c)"
  then obtain pre k c post where split: "no_na d = pre @ (k, JInt c) # post"
    and k: "top_key (no_na d) = Inr k"
    and pre: "\<forall>x \<in> set pre. count_int (snd x) < c"
    and post: "\<forall>x \<in> set post. count_int (snd x) \<le> c"
    using top_key_first_greatest [of "no_na d"] by blast
  from split have "(k, JInt c) \<in> set (no_na d)" by simp
  then have "k \<noteq> NA" by (simp add: no_na_set)
  with split k pre post
  show "\<exists>pre k c post. no_na d = pre @ (k, JInt c) # post \<and> top_key (no_na d) = Inr k \<and> k \<noteq> NA \<and>
         (\<forall>x \<in> set pre. count_int (snd x) < c) \<and>
         (\<forall>x \<in> set post. count_int (snd x) \<le> c)"
    by blast
next
  assume a: "(\<exists>item \<in> set d. fst item \<noteq> NA) \<and>
    (\<forall>item \<in> set d. fst item \<noteq> NA \<longrightarrow> (\<exists>c. snd item = JInt c))"
  then have some: "\<exists>item \<in> set d. fst item \<noteq> NA"
    and ints: "\<forall>item \<in> set d. fst item \<noteq> NA \<longrightarrow> (\<exists>c. snd item = JInt c)"
    by blast+
  from some ints
  show "\<exists>pre k c post. d = pre @ (k, JInt c) # post \<and> top_key (no_na d) = Inr k \<and> k \<noteq> NA \<and>
         (\<forall>x \<in> set pre. fst x \<noteq> NA \<longrightarrow> count_int (snd x) < c) \<and>
         (\<forall>x \<in> set post. fst x \<noteq> NA \<longrightarrow> count_int (snd x) \<le> c)"
    by (rule top_key_first_in_mapping)
next
  assume r: "calculate_statistics ios hits p days = Inr st"
  then obtain c tc tt ts q avg where tc: "top_key (no_na (regions p)) = Inr tc"
    and tt: "top_key (no_na (types p)) = Inr tt"
    and ts: "top_key (no_na (srcips p)) = Inr ts"
    and st: "st = [(lit ''total_incidents'', Json hits),
           (lit ''daily_average'', Float avg),
           (lit ''critical_count'', Json (JInt c)),
           (lit ''top_country'', Json tc),
           (lit ''top_incident_type'', Json tt),
           (lit ''top_srcip'', Json ts),
           (lit ''top_srcip_count'',
              Json (if ts \<noteq> NA
                    then (case map_of (no_na (srcips p)) ts of None \<Rightarrow> JInt 0 | Some c \<Rightarrow> c)
                    else JInt 0))]"
    by (rule calculate_statistics_Inr)
  have cnt_empty: "map_of st (lit ''top_srcip_count'') = Some (Json (JInt 0))"
    if "no_na (srcips p) = []"
  proof -
    from that ts have "ts = NA" by simp
    with st show ?thesis by (simp add: lit_eq_iff)
  qed
  have cnt_some: "\<exists>c. map_of (no_na (srcips p)) ts = Some c \<and>
                 map_of st (lit ''top_srcip_count'') = Some (Json c)"
    if ne: "no_na (srcips p) \<noteq> []"
  proof -
    from top_key_member [OF ts ne] have mem: "ts \<in> fst ` set (no_na (srcips p))" .
    then have "ts \<noteq> NA" by (auto simp: no_na_set)
    moreover from mem obtain c where "map_of (no_na (srcips p)) ts = Some c"
      by (metis map_of_eq_None_iff not_Some_eq)
    ultimately show ?thesis using st by (simp add: lit_eq_iff)
  qed
  from st have keys: "map fst st = statistics_keys" by (simp add: statistics_keys_def)
  from st have "map_of st (lit ''top_country'') = Some (Json tc)"
    "map_of st (lit ''top_incident_type'') = Some (Json tt)"
    "map_of st (lit ''top_srcip'') = Some (Json ts)"
    by (simp_all add: lit_eq_iff)
  with tc tt ts cnt_empty cnt_some keys
  show "\<exists>tc tt ts.
         top_key (no_na (regions p)) = Inr tc \<and>
         top_key (no_na (types p)) = Inr tt \<and>
         top_key (no_na (srcips p)) = Inr ts \<and>
         map_of st (lit ''top_country'') = Some (Json tc) \<and>
         map_of st (lit ''top_incident_type'') = Some (Json tt) \<and>
         map_of st (lit ''top_srcip'') = Some (Json ts) \<and>
         (no_na (srcips p) = [] \<longrightarrow> map_of st (lit ''top_srcip_count'') = Some (Json (JInt 0))) \<and>
         (no_na (srcips p) \<noteq> [] \<longrightarrow>
            (\<exists>c. map_of (no_na (srcips p)) ts = Some c \<and>
                 map_of st (lit ''top_srcip_count'') = Some (Json c))) \<and>
         map fst st = statistics_keys"
    by blast
next
  assume a: "(\<forall>item \<in> set (severity p). key_int ios (fst item) \<noteq> None \<and>
        (is_critical ios item \<longrightarrow> (\<exists>c. snd item = JInt c))) \<and>
    (\<forall>item \<in> set (regions p) \<union> set (types p) \<union> set (srcips p). \<exists>c. snd item = JInt c) \<and>
    n \<noteq> 0 \<and> \<bar>h\<bar> < 2 ^ 1000"
  then have sev: "\<forall>item \<in> set (severity p). key_int ios (fst item) \<noteq> None \<and>
        (is_critical ios item \<longrightarrow> (\<exists>c. snd item = JInt c))"
    and rest: "\<forall>item \<in> set (regions p) \<union> set (types p) \<union> set (srcips p). \<exists>c. snd item = JInt c"
    and n: "n \<noteq> 0" and h: "\<bar>h\<bar> < 2 ^ 1000"
    by blast+
  from well_formed_aggregates_ok [OF sev rest] n h
  show "\<exists>st' tc tt ts. calculate_statistics ios (JInt h) p (JInt n) = Inr st' \<and>
         top_key (no_na (regions p)) = Inr tc \<and>
         top_key (no_na (types p)) = Inr tt \<and>
         top_key (no_na (srcips p)) = Inr ts \<and>
         map_of st' (lit ''top_country'') = Some (Json tc) \<and>
         map_of st' (lit ''top_incident_type'') = Some (Json tt) \<and>
         map_of st' (lit ''top_srcip'') = Some (Json ts) \<and>
         map fst st' = statistics_keys"
    by (rule well_formed_top_keys)
qed

theorem top_key_excludes_sentinel_witness:
  "(\<exists>item \<in> set regions_example. fst item \<noteq> NA) \<and>
   top_key (no_na regions_example) = Inr (JStr (lit ''Czechia'')) \<and>
   JStr (lit ''Czechia'') \<noteq> NA \<and>
   top_key (no_na regions_tie_example) = Inr (JStr (lit ''Germany'')) \<and>
   top_key (no_na [(NA, JInt 5)]) = Inr NA \<and>
   (\<exists>st. calculate_statistics decimal_int (JInt 70) (empty_aggs\<lparr>regions := regions_example\<rparr>)
            (JInt 7) = Inr st \<and>
      map_of st (lit ''top_country'') = Some (Json (JStr (lit ''Czechia''))) \<and>
      map_of st (lit ''top_srcip'') = Some (Json NA) \<and>
      map_of st (lit ''top_srcip_count'') = Some (Json (JInt 0)) \<and>
      map fst st = statistics_keys)"
proof -
  note main = top_key_excludes_sentinel
  have some: "\<exists>item \<in> set regions_example. fst item \<noteq> NA"
    by (simp add: regions_example_def NA_def lit_eq_iff)
  have ints: "\<forall>item \<in> set regions_example. fst item \<noteq> NA \<longrightarrow> (\<exists>c. snd item = JInt c)"
    by (simp add: regions_example_def)
  from conjunct1 [OF conjunct2 [OF conjunct2 [OF conjunct2 [OF conjunct2
      [OF main [where d = regions_example]]]]]] some ints
  obtain k where "top_key (no_na regions_example) = Inr k" and k: "k \<noteq> NA"
    by blast
  with regions_example_top have cz: "JStr (lit ''Czechia'') \<noteq> NA" by simp
  have tie: "top_key (no_na regions_tie_example) = Inr (JStr (lit ''Germany''))"
    by (simp add: regions_tie_example_def no_na_def NA_def lit_eq_iff)
  have "\<forall>item \<in> set [(NA, JInt 5)]. fst item = NA" by simp
  with conjunct1 [OF conjunct2 [OF conjunct2 [OF main [where d = "[(NA, JInt 5)]"]]]]
  have na: "top_key (no_na [(NA, JInt 5)]) = Inr NA" by blast
  let ?p = "empty_aggs\<lparr>regions := regions_example\<rparr>"
  have fields: "severity ?p = []" "regions ?p = regions_example" "types ?p = []" "srcips ?p = []"
    by (simp_all add: empty_aggs_def)
  have pre: "(\<forall>item \<in> set (severity ?p). key_int decimal_int (fst item) \<noteq> None \<and>
        (is_critical decimal_int item \<longrightarrow> (\<exists>c. snd item = JInt c))) \<and>
    (\<forall>item \<in> set (regions ?p) \<union> set (types ?p) \<union> set (srcips ?p). \<exists>c. snd item = JInt c) \<and>
    (7 :: int) \<noteq> 0 \<and> \<bar>70 :: int\<bar> < 2 ^ 1000"
    by (simp add: empty_aggs_def regions_example_def)
  from conjunct2 [OF conjunct2 [OF conjunct2 [OF conjunct2 [OF conjunct2 [OF conjunct2
      [OF main [where ios = decimal_int and p = ?p and n = 7 and h = 70]]]]]]] pre
  obtain st tc ts where st: "calculate_statistics decimal_int (JInt 70) ?p (JInt 7) = Inr st"
    and tc: "top_key (no_na (regions ?p)) = Inr tc"
    and ts: "top_key (no_na (srcips ?p)) = Inr ts"
    and mtc: "map_of st (lit ''top_country'') = Some (Json tc)"
    and mts: "map_of st (lit ''top_srcip'') = Some (Json ts)"
    and keys: "map fst st = statistics_keys"
    by blast
  from tc fields(2) regions_example_top have tc': "tc = JStr (lit ''Czechia'')" by simp
  from ts fields(4) have ts': "ts = NA" by (simp add: no_na_def)
  have empty: "no_na (srcips ?p) = []" by (simp add: fields no_na_def)
  from conjunct1 [OF conjunct2 [OF conjunct2 [OF conjunct2 [OF conjunct2 [OF conjunct2
      [OF main [where ios = decimal_int and hits = "JInt 70" and p = ?p and days = "JInt 7"
        and st = st]]]]]]] st empty
  have cnt: "map_of st (lit ''top_srcip_count'') = Some (Json (JInt 0))"
    by blast
  from st mtc mts keys cnt tc' ts'
  have "\<exists>st. calculate_statistics decimal_int (JInt 70) ?p (JInt 7) = Inr st \<and>
      map_of st (lit ''top_country'') = Some (Json (JStr (lit ''Czechia''))) \<and>
      map_of st (lit ''top_srcip'') = Some (Json NA) \<and>
      map_of st (lit ''top_srcip_count'') = Some (Json (JInt 0)) \<and>
      map fst st = statistics_keys"
    by blast
  with some regions_example_top cz tie na show ?thesis by (intro conjI)
qed

text \<open>
  The claim as stated gives the top country a count of zero when only
  \<^verbatim>\<open>"N/A"\<close> is present. The statistics for \<^verbatim>\<open>regions = {"N/A": 5}\<close> have no
  such entry.
\<close>

theorem no_count_for_top_country_counterexample:
  "calculate_statistics decimal_int (JInt 5) only_na_example (JInt 7) =
     Inr [(lit ''total_incidents'', Json (JInt 5)),
          (lit ''daily_average'', Float (PyFloat False 6305039478318694 (- 53))),
          (lit ''critical_count'', Json (JInt 0)),
          (lit ''top_country'', Json NA),
          (lit ''top_incident_type'', Json NA),
          (lit ''top_srcip'', Json NA),
          (lit ''top_srcip_count'', Json (JInt 0))] \<and>
   map fst [(lit ''total_incidents'', Json (JInt 5)),
          (lit ''daily_average'', Float (PyFloat False 6305039478318694 (- 53))),
          (lit ''critical_count'', Json (JInt 0)),
          (lit ''top_country'', Json NA),
          (lit ''top_incident_type'', Json NA),
          (lit ''top_srcip'', Json NA),
          (lit ''top_srcip_count'', Json (JInt 0))] = statistics_keys \<and>
   lit ''top_country_count'' \<notin> set statistics_keys"
  using only_na_statistics by (simp add: statistics_keys_def lit_eq_iff)

subsection \<open>The daily average\<close>

text \<open>
  Claim C3, as amended. With \<^verbatim>\<open>days = 0\<close> the calculator always raises, and
  where the aggregations are in order the exception is the
  \<^verbatim>\<open>ZeroDivisionError\<close> of the division. With any other \<^verbatim>\<open>days\<close>, negative
  ones too, and \<^verbatim>\<open>total_hits\<close> below \<open>2^1000\<close> in magnitude, it returns, and
  \<^verbatim>\<open>daily_average\<close> is \<^verbatim>\<open>round(total_hits / days, 1)\<close>.
\<close>

theorem daily_average_for_nonzero_days:
  "(\<exists>e. calculate_statistics ios (JInt hits) p (JInt 0) = Inl e) \<and>
   (aggregates_ok ios p \<longrightarrow>
      calculate_statistics ios (JInt hits) p (JInt 0) = Inl ZeroDivisionError \<and>
      (days \<noteq> 0 \<and> \<bar>hits\<bar> < 2 ^ 1000 \<longrightarrow>
         (\<exists>q avg st. int_truediv hits days = Inr q \<and> py_round1 q = Inr avg \<and>
            calculate_statistics ios (JInt hits) p (JInt days) = Inr st \<and>
            map_of st (lit ''daily_average'') = Some (Float avg))))"
proof (intro conjI impI)
  show "\<exists>e. calculate_statistics ios (JInt hits) p (JInt 0) = Inl e"
    by (rule calculate_statistics_zero_days)
next
  assume "aggregates_ok ios p"
  then show "calculate_statistics ios (JInt hits) p (JInt 0) = Inl ZeroDivisionError"
    by (rule calculate_statistics_zero_division)
next
  assume ok: "aggregates_ok ios p" and "days \<noteq> 0 \<and> \<bar>hits\<bar> < 2 ^ 1000"
  then obtain m e where q: "int_truediv hits days = Inr (PyFloat ((hits < 0) \<noteq> (days < 0)) m e)"
    and "0 \<le> m" "m < 2 ^ 53" "e \<le> 948"
    using int_truediv_Inr [of days hits] by blast
  from py_round1_Inr [OF this(2,3,4)] obtain avg
    where avg: "py_round1 (PyFloat ((hits < 0) \<noteq> (days < 0)) m e) = Inr avg"
    by blast
  from q have "py_truediv (JInt hits) (JInt days) = Inr (PyFloat ((hits < 0) \<noteq> (days < 0)) m e)"
    by simp
  from calculate_statistics_returns [OF ok this avg] q avg
  show "\<exists>q avg st. int_truediv hits days = Inr q \<and> py_round1 q = Inr avg \<and>
            calculate_statistics ios (JInt hits) p (JInt days) = Inr st \<and>
            map_of st (lit ''daily_average'') = Some (Float avg)"
    by blast
qed

theorem daily_average_for_nonzero_days_witness:
  "aggregates_ok decimal_int empty_aggs \<and>
   calculate_statistics decimal_int (JInt 70) empty_aggs (JInt 0) = Inl ZeroDivisionError \<and>
   (\<exists>st. calculate_statistics decimal_int (JInt 70) empty_aggs (JInt 7) = Inr st \<and>
      map_of st (lit ''daily_average'') = Some (Float (PyFloat False 5629499534213120 (- 49)))) \<and>
   float_value (PyFloat False 5629499534213120 (- 49)) = 10"
proof -
  have q: "int_truediv 70 7 = Inr (PyFloat False 5629499534213120 (- 49))" by code_simp
  have r: "py_round1 (PyFloat False 5629499534213120 (- 49)) = Inr (PyFloat False 5629499534213120 (- 49))"
    by code_simp
  have "(7::int) \<noteq> 0 \<and> \<bar>70::int\<bar> < 2 ^ 1000" by simp
  with daily_average_for_nonzero_days [of decimal_int 70 empty_aggs 7] empty_aggs_ok [of decimal_int] q r
  show ?thesis by (auto simp: float_value_def)
qed


text \<open>
  The claim as stated has every \<^verbatim>\<open>days \<le> 0\<close> raise. With \<^verbatim>\<open>days = -7\<close> and
  70 hits the calculator returns a daily average of \<open>-10.0\<close>.
\<close>

theorem negative_days_return_counterexample:
  "calculate_statistics decimal_int (JInt 70) empty_aggs (JInt (- 7)) =
     Inr [(lit ''total_incidents'', Json (JInt 70)),
          (lit ''daily_average'', Float (PyFloat True 5629499534213120 (- 49))),
          (lit ''critical_count'', Json (JInt 0)),
          (lit ''top_country'', Json NA),
          (lit ''top_incident_type'', Json NA),
          (lit ''top_srcip'', Json NA),
          (lit ''top_srcip_count'', Json (JInt 0))] \<and>
   float_value (PyFloat True 5629499534213120 (- 49)) = - 10"
  using negative_days_statistics by (simp add: float_value_def)

subsection \<open>Defaults for the total and the number of days\<close>

lemma lacks_days_get:
  "lacks_days (map_of d (lit ''query_info'')) \<Longrightarrow>
     and_then (py_get (JDict d) (lit ''query_info'') (JDict [])) (\<lambda>qi. py_get qi (lit ''days'') (JInt 7))
     = Inr (JInt 7)"
  by (cases "map_of d (lit ''query_info'')" rule: lacks_days.cases) simp_all

lemma extract_Inr:
  assumes "lit ''error'' \<notin> fst ` set d"
    and "extract_incident_data_from_mcp_response ios infer (Inr (JDict d)) = Inr r"
  obtains days where
    "and_then (py_get (JDict d) (lit ''aggregations'') (JDict [])) (parse_aggregations infer)
       = Inr (aggregations r)"
    "and_then (py_get (JDict d) (lit ''query_info'') (JDict [])) (\<lambda>qi. py_get qi (lit ''days'') (JInt 7))
       = Inr days"
    "total_hits r = (case map_of d (lit ''total_hits'') of None \<Rightarrow> JInt 0 | Some v \<Rightarrow> v)"
    "calculate_statistics ios (total_hits r) (aggregations r) days = Inr (statistics r)"
proof -
  from assms(2) have "and_then (Inr (JDict d)) (extract_body ios infer) = Inr r"
    by (auto simp: extract_incident_data_from_mcp_response_def split: sum.splits py_error.splits)
  then have "extract_body ios infer (JDict d) = Inr r" by simp
  with assms(1) obtain days where
    "and_then (py_get (JDict d) (lit ''aggregations'') (JDict [])) (parse_aggregations infer)
       = Inr (aggregations r)"
    "and_then (py_get (JDict d) (lit ''query_info'') (JDict [])) (\<lambda>qi. py_get qi (lit ''days'') (JInt 7))
       = Inr days"
    "total_hits r = (case map_of d (lit ''total_hits'') of None \<Rightarrow> JInt 0 | Some v \<Rightarrow> v)"
    "calculate_statistics ios (total_hits r) (aggregations r) days = Inr (statistics r)"
    unfolding extract_body_def
    by (auto simp: and_then_eq_Inr)
  then show ?thesis by (rule that)
qed

lemma extract_returns:
  assumes "lit ''error'' \<notin> fst ` set d"
    and "and_then (py_get (JDict d) (lit ''aggregations'') (JDict [])) (parse_aggregations infer) = Inr p"
    and "and_then (py_get (JDict d) (lit ''query_info'') (JDict [])) (\<lambda>qi. py_get qi (lit ''days'') (JInt 7))
       = Inr days"
    and "calculate_statistics ios (case map_of d (lit ''total_hits'') of None \<Rightarrow> JInt 0 | Some v \<Rightarrow> v)
           p days = Inr st"
  shows "\<exists>r. extract_incident_data_from_mcp_response ios infer (Inr (JDict d)) = Inr r \<and>
           aggregations r = p \<and> statistics r = st \<and>
           total_hits r = (case map_of d (lit ''total_hits'') of None \<Rightarrow> JInt 0 | Some v \<Rightarrow> v)"
proof -
  from assms(3) obtain qi where qi: "py_get (JDict d) (lit ''query_info'') (JDict []) = Inr qi"
    by (auto simp: and_then_eq_Inr)
  from assms(2) obtain aggs where aggs: "py_get (JDict d) (lit ''aggregations'') (JDict []) = Inr aggs"
    "parse_aggregations infer aggs = Inr p"
    by (auto simp: and_then_eq_Inr)
  from assms(1,3,4) qi aggs show ?thesis
    by (simp add: extract_incident_data_from_mcp_response_def extract_body_def)
qed

lemma only_aggregations_parse:
  "and_then (py_get (JDict only_aggregations_example) (lit ''aggregations'') (JDict []))
     (parse_aggregations infer) = Inr only_aggregations_parsed"
  by code_simp

lemma only_aggregations_ok: "aggregates_ok decimal_int only_aggregations_parsed"
  by code_simp

lemma days_get:
  "map_of d (lit ''query_info'') = Some (JDict qi) \<Longrightarrow> map_of qi (lit ''days'') = Some v \<Longrightarrow>
     and_then (py_get (JDict d) (lit ''query_info'') (JDict [])) (\<lambda>qi. py_get qi (lit ''days'') (JInt 7))
     = Inr v"
  by simp

lemma no_aggregations_parse:
  "map_of d (lit ''aggregations'') = None \<Longrightarrow>
     and_then (py_get (JDict d) (lit ''aggregations'') (JDict [])) (parse_aggregations infer)
     = Inr empty_aggs"
  by (simp add: parse_aggregations_def section_buckets_def parse_bucket_aggregation_def
      parse_timeline_aggregation_def data_frame_def empty_aggs_def)

text \<open>
  Claim C10. For a document without an \<^verbatim>\<open>error\<close> key whose aggregations
  parse and are in order:
  \<^item> when \<^verbatim>\<open>total_hits\<close> is missing and \<^verbatim>\<open>days\<close> is a number other than 0, the
    extraction returns, with \<^verbatim>\<open>total_hits\<close> and \<^verbatim>\<open>total_incidents\<close> 0 and the
    statistics computed from 0 hits;
  \<^item> when \<^verbatim>\<open>days\<close> is missing and \<^verbatim>\<open>total_hits\<close> is a number in the float
    range, the extraction returns, with the statistics computed for 7 days;
  \<^item> when both are missing, the extraction returns, with \<^verbatim>\<open>total_incidents\<close> 0
    and \<^verbatim>\<open>daily_average\<close> \<open>0.0\<close>.

  And in every result of a document that lacks \<^verbatim>\<open>total_hits\<close> the total is 0,
  and in every result of a document that lacks \<^verbatim>\<open>days\<close> the statistics are
  those for 7 days.
\<close>

theorem missing_total_hits_and_days_default:
  assumes "lit ''error'' \<notin> fst ` set d"
  shows
   "(map_of d (lit ''total_hits'') = None \<and>
     extract_incident_data_from_mcp_response ios infer (Inr (JDict d)) = Inr r \<longrightarrow>
       total_hits r = JInt 0 \<and>
       map_of (statistics r) (lit ''total_incidents'') = Some (Json (JInt 0))) \<and>
    (lacks_days (map_of d (lit ''query_info'')) \<and>
     extract_incident_data_from_mcp_response ios infer (Inr (JDict d)) = Inr r \<longrightarrow>
       calculate_statistics ios (total_hits r) (aggregations r) (JInt 7) = Inr (statistics r)) \<and>
    (map_of d (lit ''total_hits'') = None \<and> lacks_days (map_of d (lit ''query_info'')) \<and>
     and_then (py_get (JDict d) (lit ''aggregations'') (JDict [])) (parse_aggregations infer) = Inr p \<and>
     aggregates_ok ios p \<longrightarrow>
       (\<exists>r'. extract_incident_data_from_mcp_response ios infer (Inr (JDict d)) = Inr r' \<and>
          aggregations r' = p \<and>
          map_of (statistics r') (lit ''total_incidents'') = Some (Json (JInt 0)) \<and>
          map_of (statistics r') (lit ''daily_average'') = Some (Float (PyFloat False 0 0)))) \<and>
    (map_of d (lit ''total_hits'') = None \<and>
     map_of d (lit ''query_info'') = Some (JDict qi) \<and> map_of qi (lit ''days'') = Some (JInt n) \<and>
     n \<noteq> 0 \<and>
     and_then (py_get (JDict d) (lit ''aggregations'') (JDict [])) (parse_aggregations infer) = Inr p \<and>
     aggregates_ok ios p \<longrightarrow>
       (\<exists>r'. extract_incident_data_from_mcp_response ios infer (Inr (JDict d)) = Inr r' \<and>
          total_hits r' = JInt 0 \<and>
          aggregations r' = p \<and>
          calculate_statistics ios (JInt 0) p (JInt n) = Inr (statistics r') \<and>
          map_of (statistics r') (lit ''total_incidents'') = Some (Json (JInt 0)))) \<and>
    (map_of d (lit ''total_hits'') = Some (JInt h) \<and> \<bar>h\<bar> < 2 ^ 1000 \<and>
     lacks_days (map_of d (lit ''query_info'')) \<and>
     and_then (py_get (JDict d) (lit ''aggregations'') (JDict [])) (parse_aggregations infer) = Inr p \<and>
     aggregates_ok ios p \<longrightarrow>
       (\<exists>r'. extract_incident_data_from_mcp_response ios infer (Inr (JDict d)) = Inr r' \<and>
          total_hits r' = JInt h \<and>
          aggregations r' = p \<and>
          calculate_statistics ios (JInt h) p (JInt 7) = Inr (statistics r')))"
proof (intro conjI impI)
  assume a: "map_of d (lit ''total_hits'') = None \<and>
     extract_incident_data_from_mcp_response ios infer (Inr (JDict d)) = Inr r"
  then have ex: "extract_incident_data_from_mcp_response ios infer (Inr (JDict d)) = Inr r"
    and none: "map_of d (lit ''total_hits'') = None"
    by blast+
  from extract_Inr [OF assms ex] obtain days where
    th: "total_hits r = (case map_of d (lit ''total_hits'') of None \<Rightarrow> JInt 0 | Some v \<Rightarrow> v)"
    and st: "calculate_statistics ios (total_hits r) (aggregations r) days = Inr (statistics r)"
    by blast
  from th none show th0: "total_hits r = JInt 0" by simp
  from st obtain rest where "statistics r = (lit ''total_incidents'', Json (total_hits r)) # rest"
    by (rule calculate_statistics_Inr) simp
  with th0 show "map_of (statistics r) (lit ''total_incidents'') = Some (Json (JInt 0))"
    by simp
next
  assume a: "lacks_days (map_of d (lit ''query_info'')) \<and>
     extract_incident_data_from_mcp_response ios infer (Inr (JDict d)) = Inr r"
  then have ex: "extract_incident_data_from_mcp_response ios infer (Inr (JDict d)) = Inr r"
    and ld: "lacks_days (map_of d (lit ''query_info''))"
    by blast+
  from extract_Inr [OF assms ex] obtain days where
    days: "and_then (py_get (JDict d) (lit ''query_info'') (JDict []))
             (\<lambda>qi. py_get qi (lit ''days'') (JInt 7)) = Inr days"
    and st: "calculate_statistics ios (total_hits r) (aggregations r) days = Inr (statistics r)"
    by blast
  from days lacks_days_get [OF ld] have "days = JInt 7" by simp
  with st show "calculate_statistics ios (total_hits r) (aggregations r) (JInt 7) = Inr (statistics r)"
    by simp
next
  assume a: "map_of d (lit ''total_hits'') = None \<and> lacks_days (map_of d (lit ''query_info'')) \<and>
     and_then (py_get (JDict d) (lit ''aggregations'') (JDict [])) (parse_aggregations infer) = Inr p \<and>
     aggregates_ok ios p"
  then have none: "map_of d (lit ''total_hits'') = None"
    and ld: "lacks_days (map_of d (lit ''query_info''))"
    and parse: "and_then (py_get (JDict d) (lit ''aggregations'') (JDict [])) (parse_aggregations infer) = Inr p"
    and ok: "aggregates_ok ios p"
    by blast+
  have q: "py_truediv (JInt 0) (JInt 7) = Inr (PyFloat False 0 0)"
    by (simp add: int_truediv_def round_binary64_def)
  have avg: "py_round1 (PyFloat False 0 0) = Inr (PyFloat False 0 0)"
    by (simp add: py_round1_def round_half_even_div_def round_binary64_def)
  from calculate_statistics_returns [OF ok q avg] obtain st
    where st: "calculate_statistics ios (JInt 0) p (JInt 7) = Inr st"
      "map_of st (lit ''total_incidents'') = Some (Json (JInt 0))"
      "map_of st (lit ''daily_average'') = Some (Float (PyFloat False 0 0))"
    by blast
  from st(1) none
  have st': "calculate_statistics ios
      (case map_of d (lit ''total_hits'') of None \<Rightarrow> JInt 0 | Some v \<Rightarrow> v) p (JInt 7) = Inr st"
    by simp
  from extract_returns [OF assms parse lacks_days_get [OF ld] st']
  obtain r' where "extract_incident_data_from_mcp_response ios infer (Inr (JDict d)) = Inr r'"
    "aggregations r' = p" "statistics r' = st"
    by blast
  with st(2,3) show "\<exists>r'. extract_incident_data_from_mcp_response ios infer (Inr (JDict d)) = Inr r' \<and>
          aggregations r' = p \<and>
          map_of (statistics r') (lit ''total_incidents'') = Some (Json (JInt 0)) \<and>
          map_of (statistics r') (lit ''daily_average'') = Some (Float (PyFloat False 0 0))"
    by blast
next
  assume a: "map_of d (lit ''total_hits'') = None \<and>
     map_of d (lit ''query_info'') = Some (JDict qi) \<and> map_of qi (lit ''days'') = Some (JInt n) \<and>
     n \<noteq> 0 \<and>
     and_then (py_get (JDict d) (lit ''aggregations'') (JDict [])) (parse_aggregations infer) = Inr p \<and>
     aggregates_ok ios p"
  then have none: "map_of d (lit ''total_hits'') = None"
    and qi: "map_of d (lit ''query_info'') = Some (JDict qi)"
    and n: "map_of qi (lit ''days'') = Some (JInt n)" and n0: "n \<noteq> 0"
    and parse: "and_then (py_get (JDict d) (lit ''aggregations'') (JDict [])) (parse_aggregations infer) = Inr p"
    and ok: "aggregates_ok ios p"
    by blast+
  have small: "\<bar>0 :: int\<bar> < 2 ^ 1000" by simp
  from calculate_statistics_nonzero_days [OF ok n0 small] obtain st
    where st: "calculate_statistics ios (JInt 0) p (JInt n) = Inr st"
      and hd: "map_of st (lit ''total_incidents'') = Some (Json (JInt 0))"
    by (metis map_of_Cons_code(2))
  from st none
  have st': "calculate_statistics ios
      (case map_of d (lit ''total_hits'') of None \<Rightarrow> JInt 0 | Some v \<Rightarrow> v) p (JInt n) = Inr st"
    by simp
  from extract_returns [OF assms parse days_get [OF qi n] st'] none
  obtain r' where "extract_incident_data_from_mcp_response ios infer (Inr (JDict d)) = Inr r'"
    "aggregations r' = p" "statistics r' = st" "total_hits r' = JInt 0"
    by auto
  with st hd show "\<exists>r'. extract_incident_data_from_mcp_response ios infer (Inr (JDict d)) = Inr r' \<and>
          total_hits r' = JInt 0 \<and>
          aggregations r' = p \<and>
          calculate_statistics ios (JInt 0) p (JInt n) = Inr (statistics r') \<and>
          map_of (statistics r') (lit ''total_incidents'') = Some (Json (JInt 0))"
    by auto
next
  assume a: "map_of d (lit ''total_hits'') = Some (JInt h) \<and> \<bar>h\<bar> < 2 ^ 1000 \<and>
     lacks_days (map_of d (lit ''query_info'')) \<and>
     and_then (py_get (JDict d) (lit ''aggregations'') (JDict [])) (parse_aggregations infer) = Inr p \<and>
     aggregates_ok ios p"
  then have some: "map_of d (lit ''total_hits'') = Some (JInt h)"
    and small: "\<bar>h\<bar> < 2 ^ 1000"
    and ld: "lacks_days (map_of d (lit ''query_info''))"
    and parse: "and_then (py_get (JDict d) (lit ''aggregations'') (JDict [])) (parse_aggregations infer) = Inr p"
    and ok: "aggregates_ok ios p"
    by blast+
  have seven: "(7 :: int) \<noteq> 0" by simp
  from calculate_statistics_nonzero_days [OF ok seven small] obtain st
    where st: "calculate_statistics ios (JInt h) p (JInt 7) = Inr st"
    by metis
  from st some
  have st': "calculate_statistics ios
      (case map_of d (lit ''total_hits'') of None \<Rightarrow> JInt 0 | Some v \<Rightarrow> v) p (JInt 7) = Inr st"
    by simp
  from extract_returns [OF assms parse lacks_days_get [OF ld] st'] some
  obtain r' where "extract_incident_data_from_mcp_response ios infer (Inr (JDict d)) = Inr r'"
    "aggregations r' = p" "statistics r' = st" "total_hits r' = JInt h"
    by auto
  with st show "\<exists>r'. extract_incident_data_from_mcp_response ios infer (Inr (JDict d)) = Inr r' \<and>
          total_hits r' = JInt h \<and>
          aggregations r' = p \<and>
          calculate_statistics ios (JInt h) p (JInt 7) = Inr (statistics r')"
    by auto
qed

lemma seventy_over_seven:
  "calculate_statistics decimal_int (JInt 70) empty_aggs (JInt 7) =
     Inr [(lit ''total_incidents'', Json (JInt 70)),
          (lit ''daily_average'', Float (PyFloat False 5629499534213120 (- 49))),
          (lit ''critical_count'', Json (JInt 0)),
          (lit ''top_country'', Json NA),
          (lit ''top_incident_type'', Json NA),
          (lit ''top_srcip'', Json NA),
          (lit ''top_srcip_count'', Json (JInt 0))]"
  by code_simp

theorem missing_total_hits_and_days_default_witness:
  "\<forall>infer.
     lit ''error'' \<notin> fst ` set only_aggregations_example \<and>
     (\<exists>r. extract_incident_data_from_mcp_response decimal_int infer
             (Inr (JDict only_aggregations_example)) = Inr r \<and>
        aggregations r = only_aggregations_parsed \<and>
        total_hits r = JInt 0 \<and>
        calculate_statistics decimal_int (total_hits r) (aggregations r) (JInt 7) = Inr (statistics r) \<and>
        map_of (statistics r) (lit ''total_incidents'') = Some (Json (JInt 0)) \<and>
        map_of (statistics r) (lit ''daily_average'') = Some (Float (PyFloat False 0 0))) \<and>
     float_value (PyFloat False 0 0) = 0 \<and>
     (\<exists>r. extract_incident_data_from_mcp_response decimal_int infer
             (Inr (JDict only_days_example)) = Inr r \<and>
        total_hits r = JInt 0 \<and>
        calculate_statistics decimal_int (JInt 0) empty_aggs (JInt 14) = Inr (statistics r) \<and>
        map_of (statistics r) (lit ''total_incidents'') = Some (Json (JInt 0))) \<and>
     (\<exists>r. extract_incident_data_from_mcp_response decimal_int infer
             (Inr (JDict only_total_example)) = Inr r \<and>
        total_hits r = JInt 70 \<and>
        map_of (statistics r) (lit ''daily_average'')
          = Some (Float (PyFloat False 5629499534213120 (- 49)))) \<and>
     float_value (PyFloat False 5629499534213120 (- 49)) = 10"
proof
  fix infer :: "(json \<times> json) list \<Rightarrow> dataframe result"
  have ne: "lit ''error'' \<notin> fst ` set only_aggregations_example"
    by (simp add: only_aggregations_example_def lit_eq_iff)
  have th: "map_of only_aggregations_example (lit ''total_hits'') = None"
    by (simp add: only_aggregations_example_def lit_eq_iff)
  have ld: "lacks_days (map_of only_aggregations_example (lit ''query_info''))"
    by (simp add: only_aggregations_example_def lit_eq_iff)
  note main = missing_total_hits_and_days_default [OF ne, where ios = decimal_int
      and infer = infer and p = only_aggregations_parsed]
  from main have "map_of only_aggregations_example (lit ''total_hits'') = None \<and>
     lacks_days (map_of only_aggregations_example (lit ''query_info'')) \<and>
     and_then (py_get (JDict only_aggregations_example) (lit ''aggregations'') (JDict []))
       (parse_aggregations infer) = Inr only_aggregations_parsed \<and>
     aggregates_ok decimal_int only_aggregations_parsed \<longrightarrow>
       (\<exists>r'. extract_incident_data_from_mcp_response decimal_int infer
               (Inr (JDict only_aggregations_example)) = Inr r' \<and>
          aggregations r' = only_aggregations_parsed \<and>
          map_of (statistics r') (lit ''total_incidents'') = Some (Json (JInt 0)) \<and>
          map_of (statistics r') (lit ''daily_average'') = Some (Float (PyFloat False 0 0)))"
    by (rule conjunct1 [OF conjunct2 [OF conjunct2]])
  with th ld only_aggregations_parse only_aggregations_ok
  obtain r where r: "extract_incident_data_from_mcp_response decimal_int infer
        (Inr (JDict only_aggregations_example)) = Inr r"
    and r2: "aggregations r = only_aggregations_parsed"
    and r3: "map_of (statistics r) (lit ''total_incidents'') = Some (Json (JInt 0))"
    and r4: "map_of (statistics r) (lit ''daily_average'') = Some (Float (PyFloat False 0 0))"
    by blast
  from conjunct1 [OF main [where r = r]] th r have t0: "total_hits r = JInt 0"
    by simp
  from conjunct1 [OF conjunct2 [OF main [where r = r]]] ld r
  have c7: "calculate_statistics decimal_int (total_hits r) (aggregations r) (JInt 7)
            = Inr (statistics r)"
    by simp
  have fv: "float_value (PyFloat False 0 0) = 0" by (simp add: float_value_def)
  from r r2 r3 r4 t0 c7 have both: "\<exists>r. extract_incident_data_from_mcp_response decimal_int infer
        (Inr (JDict only_aggregations_example)) = Inr r \<and>
      aggregations r = only_aggregations_parsed \<and>
      total_hits r = JInt 0 \<and>
      calculate_statistics decimal_int (total_hits r) (aggregations r) (JInt 7) = Inr (statistics r) \<and>
      map_of (statistics r) (lit ''total_incidents'') = Some (Json (JInt 0)) \<and>
      map_of (statistics r) (lit ''daily_average'') = Some (Float (PyFloat False 0 0))"
    by (intro exI [of _ r] conjI)

  have ne_d: "lit ''error'' \<notin> fst ` set only_days_example"
    by (simp add: only_days_example_def lit_eq_iff)
  have th_d: "map_of only_days_example (lit ''total_hits'') = None"
    by (simp add: only_days_example_def lit_eq_iff)
  have qi_d: "map_of only_days_example (lit ''query_info'') = Some (JDict [(lit ''days'', JInt 14)])"
    by (simp add: only_days_example_def)
  have n_d: "map_of [(lit ''days'', JInt 14)] (lit ''days'') = Some (JInt 14)" by simp
  have "map_of only_days_example (lit ''aggregations'') = None"
    by (simp add: only_days_example_def lit_eq_iff)
  then have parse_d:
    "and_then (py_get (JDict only_days_example) (lit ''aggregations'') (JDict []))
       (parse_aggregations infer) = Inr empty_aggs"
    by (rule no_aggregations_parse)
  have n0: "(14 :: int) \<noteq> 0" by simp
  from missing_total_hits_and_days_default [OF ne_d, where ios = decimal_int
      and infer = infer and p = empty_aggs and qi = "[(lit ''days'', JInt 14)]" and n = 14]
  have "map_of only_days_example (lit ''total_hits'') = None \<and>
     map_of only_days_example (lit ''query_info'') = Some (JDict [(lit ''days'', JInt 14)]) \<and>
     map_of [(lit ''days'', JInt 14)] (lit ''days'') = Some (JInt 14) \<and>
     (14 :: int) \<noteq> 0 \<and>
     and_then (py_get (JDict only_days_example) (lit ''aggregations'') (JDict []))
       (parse_aggregations infer) = Inr empty_aggs \<and>
     aggregates_ok decimal_int empty_aggs \<longrightarrow>
       (\<exists>r'. extract_incident_data_from_mcp_response decimal_int infer
                (Inr (JDict only_days_example)) = Inr r' \<and>
          total_hits r' = JInt 0 \<and>
          aggregations r' = empty_aggs \<and>
          calculate_statistics decimal_int (JInt 0) empty_aggs (JInt 14) = Inr (statistics r') \<and>
          map_of (statistics r') (lit ''total_incidents'') = Some (Json (JInt 0)))"
    by (rule conjunct1 [OF conjunct2 [OF conjunct2 [OF conjunct2]]])
  with th_d qi_d n_d n0 parse_d empty_aggs_ok [of decimal_int]
  have days: "\<exists>r. extract_incident_data_from_mcp_response decimal_int infer
             (Inr (JDict only_days_example)) = Inr r \<and>
        total_hits r = JInt 0 \<and>
        calculate_statistics decimal_int (JInt 0) empty_aggs (JInt 14) = Inr (statistics r) \<and>
        map_of (statistics r) (lit ''total_incidents'') = Some (Json (JInt 0))"
    by blast

  have ne_t: "lit ''error'' \<notin> fst ` set only_total_example"
    by (simp add: only_total_example_def lit_eq_iff)
  have th_t: "map_of only_total_example (lit ''total_hits'') = Some (JInt 70)"
    by (simp add: only_total_example_def)
  have ld_t: "lacks_days (map_of only_total_example (lit ''query_info''))"
    by (simp add: only_total_example_def lit_eq_iff)
  have "map_of only_total_example (lit ''aggregations'') = None"
    by (simp add: only_total_example_def lit_eq_iff)
  then have parse_t:
    "and_then (py_get (JDict only_total_example) (lit ''aggregations'') (JDict []))
       (parse_aggregations infer) = Inr empty_aggs"
    by (rule no_aggregations_parse)
  have small: "\<bar>70 :: int\<bar> < 2 ^ 1000" by simp
  from missing_total_hits_and_days_default [OF ne_t, where ios = decimal_int
      and infer = infer and p = empty_aggs and h = 70]
  have "map_of only_total_example (lit ''total_hits'') = Some (JInt 70) \<and>
     \<bar>70 :: int\<bar> < 2 ^ 1000 \<and>
     lacks_days (map_of only_total_example (lit ''query_info'')) \<and>
     and_then (py_get (JDict only_total_example) (lit ''aggregations'') (JDict []))
       (parse_aggregations infer) = Inr empty_aggs \<and>
     aggregates_ok decimal_int empty_aggs \<longrightarrow>
       (\<exists>r'. extract_incident_data_from_mcp_response decimal_int infer
                (Inr (JDict only_total_example)) = Inr r' \<and>
          total_hits r' = JInt 70 \<and>
          aggregations r' = empty_aggs \<and>
          calculate_statistics decimal_int (JInt 70) empty_aggs (JInt 7) = Inr (statistics r'))"
    by (rule conjunct2 [OF conjunct2 [OF conjunct2 [OF conjunct2]]])
  with th_t small ld_t parse_t empty_aggs_ok [of decimal_int]
  obtain rt where rt: "extract_incident_data_from_mcp_response decimal_int infer
                (Inr (JDict only_total_example)) = Inr rt"
    and rt1: "total_hits rt = JInt 70"
    and rt2: "calculate_statistics decimal_int (JInt 70) empty_aggs (JInt 7) = Inr (statistics rt)"
    by blast
  from rt2 seventy_over_seven
  have "statistics rt =
     [(lit ''total_incidents'', Json (JInt 70)),
      (lit ''daily_average'', Float (PyFloat False 5629499534213120 (- 49))),
      (lit ''critical_count'', Json (JInt 0)),
      (lit ''top_country'', Json NA),
      (lit ''top_incident_type'', Json NA),
      (lit ''top_srcip'', Json NA),
      (lit ''top_srcip_count'', Json (JInt 0))]"
    by simp
  then have "map_of (statistics rt) (lit ''daily_average'')
          = Some (Float (PyFloat False 5629499534213120 (- 49)))"
    by (simp add: lit_eq_iff)
  with rt rt1 have total: "\<exists>r. extract_incident_data_from_mcp_response decimal_int infer
             (Inr (JDict only_total_example)) = Inr r \<and>
        total_hits r = JInt 70 \<and>
        map_of (statistics r) (lit ''daily_average'')
          = Some (Float (PyFloat False 5629499534213120 (- 49)))"
    by blast
  have fv10: "float_value (PyFloat False 5629499534213120 (- 49)) = 10"
    by (simp add: float_value_def)
  from ne both fv days total fv10
  show "lit ''error'' \<notin> fst ` set only_aggregations_example \<and>
     (\<exists>r. extract_incident_data_from_mcp_response decimal_int infer
             (Inr (JDict only_aggregations_example)) = Inr r \<and>
        aggregations r = only_aggregations_parsed \<and>
        total_hits r = JInt 0 \<and>
        calculate_statistics decimal_int (total_hits r) (aggregations r) (JInt 7) = Inr (statistics r) \<and>
        map_of (statistics r) (lit ''total_incidents'') = Some (Json (JInt 0)) \<and>
        map_of (statistics r) (lit ''daily_average'') = Some (Float (PyFloat False 0 0))) \<and>
     float_value (PyFloat False 0 0) = 0 \<and>
     (\<exists>r. extract_incident_data_from_mcp_response decimal_int infer
             (Inr (JDict only_days_example)) = Inr r \<and>
        total_hits r = JInt 0 \<and>
        calculate_statistics decimal_int (JInt 0) empty_aggs (JInt 14) = Inr (statistics r) \<and>
        map_of (statistics r) (lit ''total_incidents'') = Some (Json (JInt 0))) \<and>
     (\<exists>r. extract_incident_data_from_mcp_response decimal_int infer
             (Inr (JDict only_total_example)) = Inr r \<and>
        total_hits r = JInt 70 \<and>
        map_of (statistics r) (lit ''daily_average'')
          = Some (Float (PyFloat False 5629499534213120 (- 49)))) \<and>
     float_value (PyFloat False 5629499534213120 (- 49)) = 10"
    by (intro conjI)
qed

subsection \<open>The sample section\<close>

lemma fmt_NA [simp]: "fmt reprf NA = lit ''N/A''"
  by (simp add: NA_def)

lemma string_list_str_items: "string_list (JList vs) \<Longrightarrow> \<exists>ss. str_items vs = Inr ss"
  by (induction vs rule: str_items.induct) auto

lemma string_list_join:
  assumes "string_list v"
  shows "\<exists>g. py_join sep v = Inr g"
proof -
  from assms obtain vs where v: "v = JList vs" by (cases v rule: string_list.cases) auto
  with assms string_list_str_items [of vs] show ?thesis by (auto simp: py_join_def)
qed

lemma sliceable_slice:
  "sliceable v \<Longrightarrow> \<exists>w. py_slice200 v = Inr w"
  by (cases v) auto

lemma incident_fields_dict:
  "incident_fields reprf (JDict d) =
     and_then (py_join (lit '', '') (case map_of d (lit ''rule_groups'') of None \<Rightarrow> JList [] | Some v \<Rightarrow> v))
       (\<lambda>groups.
     and_then (py_slice200 (field_or_na d (lit ''full_log''))) (\<lambda>full_log.
       Inr \<lparr>f_timestamp = fmt reprf (field_or_na d (lit ''timestamp'')),
            f_agent_name = fmt reprf (field_or_na d (lit ''agent_name'')),
            f_rule_level = fmt reprf (field_or_na d (lit ''rule_level'')),
            f_rule_description = fmt reprf (field_or_na d (lit ''rule_description'')),
            f_rule_groups = groups,
            f_country_name = fmt reprf (field_or_na d (lit ''country_name'')),
            f_src_ip = fmt reprf (field_or_na d (lit ''src_ip'')),
            f_url = fmt reprf (field_or_na d (lit ''url'')),
            f_full_log = fmt reprf full_log\<rparr>))"
  by (cases "py_join (lit '', '') (case map_of d (lit ''rule_groups'') of None \<Rightarrow> JList [] | Some v \<Rightarrow> v)")
     (simp_all add: incident_fields_def field_or_na_def)

lemma renderable_incident_fields:
  assumes "renderable_incident x"
  shows "\<exists>fs. incident_fields reprf x = Inr fs"
proof -
  from assms obtain d where x: "x = JDict d" by (cases x) auto
  have "string_list (case map_of d (lit ''rule_groups'') of None \<Rightarrow> JList [] | Some v \<Rightarrow> v)"
    using assms x by (simp split: option.splits)
  from string_list_join [OF this] obtain g where
    g: "py_join (lit '', '') (case map_of d (lit ''rule_groups'') of None \<Rightarrow> JList [] | Some v \<Rightarrow> v) = Inr g"
    by blast
  have "sliceable (field_or_na d (lit ''full_log''))"
    using assms x by (simp add: field_or_na_def NA_def split: option.splits)
  from sliceable_slice [OF this] obtain w where
    w: "py_slice200 (field_or_na d (lit ''full_log'')) = Inr w"
    by blast
  from g w x show ?thesis by (simp add: incident_fields_dict)
qed

lemma incident_loop_Inr:
  assumes "incident_loop reprf i xs acc = Inr out"
  shows "\<exists>es. length es = length xs \<and> out = acc @ concat es \<and>
           (\<forall>j < length xs. render_incident reprf (i + int j) (xs ! j) = Inr (es ! j))"
  using assms
proof (induction xs arbitrary: i acc)
  case Nil
  then show ?case by simp
next
  case (Cons x xs)
  from Cons.prems obtain e where e: "render_incident reprf i x = Inr e"
    and rest: "incident_loop reprf (i + 1) xs (acc @ e) = Inr out"
    by (auto simp: and_then_eq_Inr)
  from Cons.IH [OF rest] obtain es where es: "length es = length xs" "out = (acc @ e) @ concat es"
    "\<forall>j < length xs. render_incident reprf (i + 1 + int j) (xs ! j) = Inr (es ! j)"
    by blast
  have "\<forall>j < length (x # xs). render_incident reprf (i + int j) ((x # xs) ! j) = Inr ((e # es) ! j)"
  proof (intro allI impI)
    fix j assume "j < length (x # xs)"
    then show "render_incident reprf (i + int j) ((x # xs) ! j) = Inr ((e # es) ! j)"
      using e es(3) by (cases j) (simp_all add: algebra_simps)
  qed
  with es(1,2) show ?case
    by (intro exI [of _ "e # es"]) simp
qed

lemma incident_loop_returns:
  assumes "\<forall>x \<in> set xs. \<exists>fs. incident_fields reprf x = Inr fs"
  shows "\<exists>out. incident_loop reprf i xs acc = Inr out"
  using assms
proof (induction xs arbitrary: i acc)
  case Nil
  then show ?case by simp
next
  case (Cons x xs)
  from Cons.prems obtain fs where "incident_fields reprf x = Inr fs" by auto
  then have "render_incident reprf i x = Inr (entry_text (fmt reprf (JInt i)) fs)"
    by (simp add: render_incident_def)
  moreover from Cons.prems have "\<forall>x \<in> set xs. \<exists>fs. incident_fields reprf x = Inr fs" by simp
  from Cons.IH [OF this] have
    "\<exists>out. incident_loop reprf (i + 1) xs (acc @ entry_text (fmt reprf (JInt i)) fs) = Inr out" .
  ultimately show ?case by simp
qed


lemma format_Inr:
  assumes "format_data_for_llm_analysis reprf frepr data = Inr out"
    and "sample_incidents data = JList xs"
  shows "\<exists>h. format_header reprf frepr data = Inr h \<and>
             incident_loop reprf 1 (take 200 xs) h = Inr out"
  using assms by (auto simp: format_data_for_llm_analysis_def and_then_eq_Inr)

lemma many_samples_header: "\<exists>h. format_header simple_repr tenths_repr many_samples_example = Inr h"
  by (simp add: format_header_def many_samples_example_def empty_statistics_def empty_aggs_def
      stats_item_def lit_eq_iff)

text \<open>
  Claim C7, as amended. When the formatter returns, its text is the header
  followed by one entry for each of the first 200 sample records, in their
  order, the entry at position \<open>j\<close> (from 0) numbered \<open>j + 1\<close>; it returns when
  the header can be built and these records can be rendered. In an entry, each
  of the scalar fields is the field of the record, or \<^verbatim>\<open>N/A\<close> when the record
  lacks it; the log is cut to 200 characters; a record without
  \<^verbatim>\<open>rule_groups\<close> has an empty list of types.
\<close>

theorem sample_entries_numbered_and_capped:
  assumes "sample_incidents data = JList xs"
  shows
  "(format_data_for_llm_analysis reprf frepr data = Inr out \<longrightarrow>
      (\<exists>h es. format_header reprf frepr data = Inr h \<and> out = h @ concat es \<and>
          length es = min (length xs) 200 \<and>
          (\<forall>j < length es. \<exists>fs. incident_fields reprf (xs ! j) = Inr fs \<and>
               es ! j = entry_text (fmt reprf (JInt (int j + 1))) fs))) \<and>
   (format_header reprf frepr data = Inr h \<and> (\<forall>x \<in> set (take 200 xs). renderable_incident x) \<longrightarrow>
      (\<exists>out'. format_data_for_llm_analysis reprf frepr data = Inr out')) \<and>
   (map_of d k = None \<longrightarrow> fmt reprf (field_or_na d k) = lit ''N/A'') \<and>
   (incident_fields reprf (JDict d) = Inr fs \<longrightarrow>
      f_timestamp fs = fmt reprf (field_or_na d (lit ''timestamp'')) \<and>
      f_agent_name fs = fmt reprf (field_or_na d (lit ''agent_name'')) \<and>
      f_rule_level fs = fmt reprf (field_or_na d (lit ''rule_level'')) \<and>
      f_rule_description fs = fmt reprf (field_or_na d (lit ''rule_description'')) \<and>
      f_country_name fs = fmt reprf (field_or_na d (lit ''country_name'')) \<and>
      f_src_ip fs = fmt reprf (field_or_na d (lit ''src_ip'')) \<and>
      f_url fs = fmt reprf (field_or_na d (lit ''url'')) \<and>
      (map_of d (lit ''rule_groups'') = None \<longrightarrow> f_rule_groups fs = []) \<and>
      (\<forall>s. field_or_na d (lit ''full_log'') = JStr s \<longrightarrow> f_full_log fs = take 200 s))"
proof (intro conjI impI)
  assume r: "format_data_for_llm_analysis reprf frepr data = Inr out"
  from format_Inr [OF r assms] obtain h where h: "format_header reprf frepr data = Inr h"
    and loop: "incident_loop reprf 1 (take 200 xs) h = Inr out"
    by blast
  from incident_loop_Inr [OF loop] obtain es where len: "length es = length (take 200 xs)"
    and out: "out = h @ concat es"
    and each: "\<forall>j < length (take 200 xs). render_incident reprf (1 + int j) (take 200 xs ! j) = Inr (es ! j)"
    by blast
  have "\<exists>fs. incident_fields reprf (xs ! j) = Inr fs \<and>
             es ! j = entry_text (fmt reprf (JInt (int j + 1))) fs" if j: "j < length es" for j
  proof -
    from j len have j': "j < length (take 200 xs)" by simp
    with each have "render_incident reprf (1 + int j) (take 200 xs ! j) = Inr (es ! j)" by blast
    moreover from j' have "take 200 xs ! j = xs ! j" by simp
    ultimately show ?thesis
      by (auto simp: render_incident_def and_then_eq_Inr add.commute)
  qed
  with h out len
  show "\<exists>h es. format_header reprf frepr data = Inr h \<and> out = h @ concat es \<and>
          length es = min (length xs) 200 \<and>
          (\<forall>j < length es. \<exists>fs. incident_fields reprf (xs ! j) = Inr fs \<and>
               es ! j = entry_text (fmt reprf (JInt (int j + 1))) fs)"
    by (intro exI [of _ h] exI [of _ es]) (simp add: min.commute)
next
  assume a: "format_header reprf frepr data = Inr h \<and> (\<forall>x \<in> set (take 200 xs). renderable_incident x)"
  then have "\<forall>x \<in> set (take 200 xs). \<exists>fs. incident_fields reprf x = Inr fs"
    using renderable_incident_fields by blast
  from incident_loop_returns [OF this, of 1 h] a assms
  show "\<exists>out'. format_data_for_llm_analysis reprf frepr data = Inr out'"
    by (simp add: format_data_for_llm_analysis_def)
next
  assume "map_of d k = None"
  then show "fmt reprf (field_or_na d k) = lit ''N/A''" by (simp add: field_or_na_def)
next
  assume f: "incident_fields reprf (JDict d) = Inr fs"
  then obtain g w where
    g: "py_join (lit '', '') (case map_of d (lit ''rule_groups'') of None \<Rightarrow> JList [] | Some v \<Rightarrow> v) = Inr g"
    and w: "py_slice200 (field_or_na d (lit ''full_log'')) = Inr w"
    and fs: "fs = \<lparr>f_timestamp = fmt reprf (field_or_na d (lit ''timestamp'')),
            f_agent_name = fmt reprf (field_or_na d (lit ''agent_name'')),
            f_rule_level = fmt reprf (field_or_na d (lit ''rule_level'')),
            f_rule_description = fmt reprf (field_or_na d (lit ''rule_description'')),
            f_rule_groups = g,
            f_country_name = fmt reprf (field_or_na d (lit ''country_name'')),
            f_src_ip = fmt reprf (field_or_na d (lit ''src_ip'')),
            f_url = fmt reprf (field_or_na d (lit ''url'')),
            f_full_log = fmt reprf w\<rparr>"
    unfolding incident_fields_dict by (auto simp: and_then_eq_Inr)
  from fs show "f_timestamp fs = fmt reprf (field_or_na d (lit ''timestamp''))"
    "f_agent_name fs = fmt reprf (field_or_na d (lit ''agent_name''))"
    "f_rule_level fs = fmt reprf (field_or_na d (lit ''rule_level''))"
    "f_rule_description fs = fmt reprf (field_or_na d (lit ''rule_description''))"
    "f_country_name fs = fmt reprf (field_or_na d (lit ''country_name''))"
    "f_src_ip fs = fmt reprf (field_or_na d (lit ''src_ip''))"
    "f_url fs = fmt reprf (field_or_na d (lit ''url''))"
    by simp_all
  show "f_rule_groups fs = []" if "map_of d (lit ''rule_groups'') = None"
    using that g fs by (simp add: py_join_def)
  show "\<forall>s. field_or_na d (lit ''full_log'') = JStr s \<longrightarrow> f_full_log fs = take 200 s"
    using w fs by auto
qed

theorem sample_entries_numbered_and_capped_witness:
  "\<exists>out h es.
     format_data_for_llm_analysis simple_repr tenths_repr many_samples_example = Inr out \<and>
     out = h @ concat es \<and> length es = 200 \<and>
     (\<exists>fs. es ! 199 = entry_text (simple_repr (JInt 200)) fs \<and>
        f_timestamp fs = lit ''N/A'' \<and> f_rule_groups fs = [] \<and> f_full_log fs = replicate 200 120)"
proof -
  have samples: "sample_incidents many_samples_example = JList (replicate 500 long_log_incident)"
    by (simp add: many_samples_example_def)
  note main = sample_entries_numbered_and_capped [OF samples, where reprf = simple_repr
      and frepr = tenths_repr and d = "[(lit ''full_log'', JStr (replicate 300 120))]"]
  from many_samples_header obtain h where
    h: "format_header simple_repr tenths_repr many_samples_example = Inr h"
    by blast
  have rend: "\<forall>x \<in> set (take 200 (replicate 500 long_log_incident)). renderable_incident x"
    by (auto simp: long_log_incident_def lit_eq_iff dest!: in_set_takeD)
  from main [where h = h] h rend obtain out where
    out: "format_data_for_llm_analysis simple_repr tenths_repr many_samples_example = Inr out"
    by blast
  from main [where out = out] out obtain h' es where
    split: "out = h' @ concat es" and len: "length es = min (length (replicate 500 long_log_incident)) 200"
    and each: "\<forall>j < length es. \<exists>fs. incident_fields simple_repr (replicate 500 long_log_incident ! j) = Inr fs \<and>
               es ! j = entry_text (fmt simple_repr (JInt (int j + 1))) fs"
    by blast
  from len have len200: "length es = 200" by simp
  then have "199 < length es" by simp
  with each obtain fs where
    fs: "incident_fields simple_repr (replicate 500 long_log_incident ! 199) = Inr fs"
    and e: "es ! 199 = entry_text (fmt simple_repr (JInt (int 199 + 1))) fs"
    by blast
  from fs have fs': "incident_fields simple_repr (JDict [(lit ''full_log'', JStr (replicate 300 120))]) = Inr fs"
    by (simp add: long_log_incident_def)
  have na: "field_or_na [(lit ''full_log'', JStr (replicate 300 120))] (lit ''timestamp'') = NA"
    by (simp add: field_or_na_def lit_eq_iff)
  have lg: "field_or_na [(lit ''full_log'', JStr (replicate 300 120))] (lit ''full_log'')
            = JStr (replicate 300 120)"
    by (simp add: field_or_na_def)
  have rg: "map_of [(lit ''full_log'', JStr (replicate 300 120))] (lit ''rule_groups'') = None"
    by (simp add: lit_eq_iff)
  from main [where fs = fs] fs' na lg rg
  have "f_timestamp fs = lit ''N/A''" "f_rule_groups fs = []" "f_full_log fs = take 200 (replicate 300 120)"
    by simp_all
  then have "f_timestamp fs = lit ''N/A''" "f_rule_groups fs = []" "f_full_log fs = replicate 200 120"
    by simp_all
  with e have "\<exists>fs. es ! 199 = entry_text (simple_repr (JInt 200)) fs \<and>
        f_timestamp fs = lit ''N/A'' \<and> f_rule_groups fs = [] \<and> f_full_log fs = replicate 200 120"
    by (intro exI [of _ fs]) simp
  with out split len200 show ?thesis by blast
qed


text \<open>
  The claim as stated has every missing field rendered as \<^verbatim>\<open>N/A\<close>. A record
  without \<^verbatim>\<open>rule_groups\<close> gets the empty string there.
\<close>

theorem missing_rule_groups_counterexample:
  "incident_fields simple_repr (JDict []) =
     Inr \<lparr>f_timestamp = lit ''N/A'', f_agent_name = lit ''N/A'', f_rule_level = lit ''N/A'',
          f_rule_description = lit ''N/A'', f_rule_groups = [], f_country_name = lit ''N/A'',
          f_src_ip = lit ''N/A'', f_url = lit ''N/A'', f_full_log = lit ''N/A''\<rparr> \<and>
   [] \<noteq> lit ''N/A''"
  by (simp add: incident_fields_def py_join_def NA_def lit_def)

subsection \<open>The severity section\<close>

text \<open>
  With distinct integer keys the items come out of \<open>sorted_items\<close> in ascending
  order of level, all of them; and the text of the formatter holds the lines of
  the sorted items, one after the other.
\<close>

lemma level_less_iff: "level_less a b \<longleftrightarrow> (\<exists>i j. a = JInt i \<and> b = JInt j \<and> i < j)"
  by (cases "(a, b)" rule: level_less.cases) simp_all

lemma insert_asc_int_keys:
  assumes "\<forall>y \<in> set ys. \<exists>j. fst y = JInt j \<and> j \<noteq> i" and "ascending_levels ys"
  shows "\<exists>out. insert_asc (JInt i, c) ys = Inr out \<and> set out = insert (JInt i, c) (set ys) \<and>
           length out = Suc (length ys) \<and> ascending_levels out"
  using assms
proof (induction ys)
  case Nil
  then show ?case by (simp add: ascending_levels_def level_less_iff)
next
  case (Cons y ys)
  from Cons.prems(1) obtain j where j: "fst y = JInt j" "j \<noteq> i" by auto
  then have lt: "tuple_lt y (JInt i, c) = Inr (j < i)" by (simp add: tuple_lt_def)
  from Cons.prems(2) have asc: "ascending_levels ys"
    and yall: "\<forall>z \<in> set ys. \<exists>k. fst z = JInt k \<and> j < k"
    using j by (auto simp: ascending_levels_def level_less_iff)
  show ?case
  proof (cases "j < i")
    case True
    from Cons.prems(1) have "\<forall>y \<in> set ys. \<exists>j. fst y = JInt j \<and> j \<noteq> i" by simp
    from Cons.IH [OF this asc] obtain out where out: "insert_asc (JInt i, c) ys = Inr out"
      "set out = insert (JInt i, c) (set ys)" "length out = Suc (length ys)" "ascending_levels out"
      by blast
    from out(2) yall True j have "\<forall>z \<in> set out. \<exists>a b. fst y = JInt a \<and> fst z = JInt b \<and> a < b"
      by auto
    with out(4) have "ascending_levels (y # out)"
      by (simp add: ascending_levels_def level_less_iff)
    with out lt True show ?thesis
      by (intro exI [of _ "y # out"]) auto
  next
    case False
    with j have ij: "i < j" by simp
    with yall j have "\<forall>z \<in> set (y # ys). \<exists>a b. (JInt i :: json) = JInt a \<and> fst z = JInt b \<and> a < b"
      by fastforce
    with Cons.prems(2) have "ascending_levels ((JInt i, c) # y # ys)"
      by (simp add: ascending_levels_def level_less_iff)
    with lt False show ?thesis
      by (intro exI [of _ "(JInt i, c) # y # ys"]) auto
  qed
qed

lemma sorted_items_int_keys:
  assumes "\<forall>item \<in> set d. \<exists>i. fst item = JInt i" and "distinct (map fst d)"
  shows "\<exists>out. sorted_items d = Inr out \<and> set out = set d \<and> length out = length d \<and>
           ascending_levels out"
  using assms
proof (induction d)
  case Nil
  then show ?case by (simp add: ascending_levels_def level_less_iff)
next
  case (Cons x d)
  from Cons.prems obtain out where out: "sorted_items d = Inr out" "set out = set d"
    "length out = length d" "ascending_levels out"
    using Cons.IH by auto
  from Cons.prems(1) obtain i c where x: "x = (JInt i, c)" by (cases x) auto
  have "\<forall>y \<in> set out. \<exists>j. fst y = JInt j \<and> j \<noteq> i"
  proof
    fix y assume "y \<in> set out"
    with out(2) have y: "y \<in> set d" by simp
    with Cons.prems(1) obtain j where j: "fst y = JInt j" by auto
    from y Cons.prems(2) x have "fst y \<noteq> JInt i" by force
    with j show "\<exists>j. fst y = JInt j \<and> j \<noteq> i" by simp
  qed
  from insert_asc_int_keys [OF this out(4), of c] out x show ?case by auto
qed

lemma string_levels_extract:
  "extract_incident_data_from_mcp_response decimal_int infer
     (Inr (JDict (levels_doc [bucket (JStr (lit ''9'')) 1, bucket (JStr (lit ''10'')) 2])))
   = Inr (levels_result [(JStr (lit ''9''), JInt 1), (JStr (lit ''10''), JInt 2)] 2)"
  by code_simp

lemma mixed_levels_extract:
  "extract_incident_data_from_mcp_response decimal_int infer
     (Inr (JDict (levels_doc [bucket (JStr (lit ''10'')) 3, bucket (JInt 7) 5])))
   = Inr (levels_result [(JStr (lit ''10''), JInt 3), (JInt 7, JInt 5)] 3)"
  by code_simp

lemma string_levels_sorted:
  "sorted_items [(JStr (lit ''9''), JInt 1), (JStr (lit ''10''), JInt 2)]
   = Inr [(JStr (lit ''10''), JInt 2), (JStr (lit ''9''), JInt 1)]"
  by code_simp

lemma format_header_severity:
  assumes "format_header reprf frepr data = Inr h"
  shows "\<exists>by_level before after.
           sorted_items (severity (aggregations data)) = Inr by_level \<and>
           h = before @ join [10] (map (severity_line reprf) by_level) @ after"
  using assms unfolding format_header_def Let_def
  by (auto simp: and_then_eq_Inr)

lemma format_severity_section:
  assumes "format_data_for_llm_analysis reprf frepr data = Inr out"
  shows "\<exists>by_level before after.
           sorted_items (severity (aggregations data)) = Inr by_level \<and>
           out = before @ join [10] (map (severity_line reprf) by_level) @ after"
proof -
  from assms obtain h samples where h: "format_header reprf frepr data = Inr h"
    and loop: "incident_loop reprf 1 samples h = Inr out"
    by (auto simp: format_data_for_llm_analysis_def and_then_eq_Inr)
  from incident_loop_Inr [OF loop] obtain es where out: "out = h @ concat es" by blast
  from format_header_severity [OF h] obtain by_level before after where
    "sorted_items (severity (aggregations data)) = Inr by_level"
    "h = before @ join [10] (map (severity_line reprf) by_level) @ after"
    by blast
  with out have "sorted_items (severity (aggregations data)) = Inr by_level \<and>
      out = before @ join [10] (map (severity_line reprf) by_level) @ (after @ concat es)"
    by simp
  then show ?thesis by blast
qed

lemma format_header_sort_error:
  assumes "sorted_items (severity (aggregations data)) = Inl e"
  shows "\<exists>e'. format_data_for_llm_analysis reprf frepr data = Inl e'"
proof (cases "format_data_for_llm_analysis reprf frepr data")
  case (Inr out)
  from format_severity_section [OF Inr] assms show ?thesis by auto
qed blast

lemma levels_result_format:
  assumes "sorted_items sev = Inr by_level"
  shows "\<exists>before after.
           format_data_for_llm_analysis simple_repr tenths_repr (levels_result sev critical)
           = Inr (before @ join [10] (map (severity_line simple_repr) by_level) @ after)"
  using assms
  by (simp add: format_data_for_llm_analysis_def format_header_def levels_result_def
      empty_aggs_def stats_item_def lit_eq_iff) blast

lemma mixed_levels_sorted:
  "sorted_items [(JStr (lit ''10''), JInt 3), (JInt 7, JInt 5)] = Inl TypeError"
  by (simp add: tuple_lt_def)

lemma mixed_levels_format:
  "format_data_for_llm_analysis simple_repr tenths_repr
     (levels_result [(JStr (lit ''10''), JInt 3), (JInt 7, JInt 5)] 3) = Inl TypeError"
  using mixed_levels_sorted
  by (simp add: format_data_for_llm_analysis_def format_header_def levels_result_def
      empty_aggs_def)

lemma format_severity_int_keys:
  assumes "format_data_for_llm_analysis reprf frepr data = Inr out"
    and "\<forall>item \<in> set (severity (aggregations data)). \<exists>i. fst item = JInt i"
    and "distinct (map fst (severity (aggregations data)))"
  shows "\<exists>by_level before after.
           out = before @ join [10] (map (severity_line reprf) by_level) @ after \<and>
           set by_level = set (severity (aggregations data)) \<and>
           length by_level = length (severity (aggregations data)) \<and>
           ascending_levels by_level"
proof -
  from format_severity_section [OF assms(1)] obtain by_level before after where
    s: "sorted_items (severity (aggregations data)) = Inr by_level"
    and out: "out = before @ join [10] (map (severity_line reprf) by_level) @ after"
    by blast
  from sorted_items_int_keys [OF assms(2,3)] s
  have "set by_level = set (severity (aggregations data))"
    "length by_level = length (severity (aggregations data))" "ascending_levels by_level"
    by auto
  with out show ?thesis by blast
qed

text \<open>
  Claim C8 at the inputs where the code departs from it. With the string keys
  \<^verbatim>\<open>"9"\<close> and \<^verbatim>\<open>"10"\<close> the statistics are computed (two critical incidents)
  and the severity section lists level 10 before level 9. With the keys
  \<^verbatim>\<open>"10"\<close> and \<^verbatim>\<open>7\<close> the statistics are computed (three critical
  incidents) and the formatter raises \<^verbatim>\<open>TypeError\<close>.
\<close>

theorem string_levels_not_sorted_by_level:
  "extract_incident_data_from_mcp_response decimal_int infer
     (Inr (JDict (levels_doc [bucket (JStr (lit ''9'')) 1, bucket (JStr (lit ''10'')) 2])))
   = Inr (levels_result [(JStr (lit ''9''), JInt 1), (JStr (lit ''10''), JInt 2)] 2) \<and>
   (\<exists>before after.
      format_data_for_llm_analysis simple_repr tenths_repr
        (levels_result [(JStr (lit ''9''), JInt 1), (JStr (lit ''10''), JInt 2)] 2)
      = Inr (before @
             severity_line simple_repr (JStr (lit ''10''), JInt 2) @ [10] @
             severity_line simple_repr (JStr (lit ''9''), JInt 1) @ after)) \<and>
   extract_incident_data_from_mcp_response decimal_int infer
     (Inr (JDict (levels_doc [bucket (JStr (lit ''10'')) 3, bucket (JInt 7) 5])))
   = Inr (levels_result [(JStr (lit ''10''), JInt 3), (JInt 7, JInt 5)] 3) \<and>
   format_data_for_llm_analysis simple_repr tenths_repr
     (levels_result [(JStr (lit ''10''), JInt 3), (JInt 7, JInt 5)] 3) = Inl TypeError"
proof -
  from levels_result_format [OF string_levels_sorted, of 2]
  have "\<exists>before after.
      format_data_for_llm_analysis simple_repr tenths_repr
        (levels_result [(JStr (lit ''9''), JInt 1), (JStr (lit ''10''), JInt 2)] 2)
      = Inr (before @
             severity_line simple_repr (JStr (lit ''10''), JInt 2) @ [10] @
             severity_line simple_repr (JStr (lit ''9''), JInt 1) @ after)"
    by simp
  with string_levels_extract mixed_levels_extract mixed_levels_format
  show ?thesis by (intro conjI)
qed

end
